theory Spec2Isabelle
  imports Main "HOL-Library.Word"
begin

unbundle bit_operations_syntax

section \<open>Dates and times\<close>

text \<open>
  Python's \<^verbatim>\<open>datetime\<close> has microsecond resolution. A \<^verbatim>\<open>datetime\<close> is modelled as the
  number of microseconds since midnight of the day with proleptic Gregorian ordinal 0, a
  \<^verbatim>\<open>date\<close> as its ordinal (\<^verbatim>\<open>date.toordinal()\<close>), a \<^verbatim>\<open>time\<close> as the microseconds since
  midnight, and a \<^verbatim>\<open>timedelta\<close> as a number of microseconds. The library's range check
  (years 1 to 9999, \<^verbatim>\<open>OverflowError\<close> beyond) is outside the model: the integers are
  unbounded.
\<close>

type_synonym datetime = int
type_synonym date = int
type_synonym time = int
type_synonym timedelta = int

definition usec_per_day :: int where
  "usec_per_day = 86400000000"

definition timedelta_minutes :: "int \<Rightarrow> timedelta" where
  "timedelta_minutes m = m * 60000000"

definition timedelta_hours :: "int \<Rightarrow> timedelta" where
  "timedelta_hours h = h * 3600000000"

definition timedelta_days :: "int \<Rightarrow> timedelta" where
  "timedelta_days d = d * usec_per_day"

definition date_of :: "datetime \<Rightarrow> date" where
  "date_of dt = dt div usec_per_day"

definition time_of :: "datetime \<Rightarrow> time" where
  "time_of dt = dt mod usec_per_day"

definition combine :: "date \<Rightarrow> time \<Rightarrow> datetime" where
  "combine d t = d * usec_per_day + t"

text \<open>\<^verbatim>\<open>date.weekday()\<close>: Monday is 0; ordinal 1 (0001-01-01) is a Monday.\<close>

definition weekday :: "date \<Rightarrow> int" where
  "weekday d = (d + 6) mod 7"

text \<open>The value \<^verbatim>\<open>datetime.strptime(s, '%H:%M').time()\<close> for a well-formed \<^verbatim>\<open>HH:MM\<close>.\<close>

definition hm :: "int \<Rightarrow> int \<Rightarrow> time" where
  "hm h m = timedelta_hours h + timedelta_minutes m"

section \<open>Tables of \<^verbatim>\<open>models.py\<close>\<close>

text \<open>
  Each model class is a record with the columns the modelled routes read or write (the
  field names carry a prefix, since several tables share column names), and each table is
  the list of its rows in insertion order. Status columns are strings, as in the source.
\<close>

record User =
  user_id :: int
  fullName :: string
  email :: string
  userType :: string
  isVerified :: bool

record ResidentInfo =
  ri_user_id :: int
  ri_firstName :: string
  ri_lastName :: string
  ri_phoneNumber :: string

record PoliceInfo =
  pi_user_id :: int
  pi_stationName :: string
  pi_municipality :: string
  pi_postalCode :: string
  pi_isApproved :: bool

record AddressApplication =
  app_id :: int
  applicant_id :: int
  app_officer_id :: "int option"
  app_status :: string
  leader_notes :: "string option"
  officer_notes :: "string option"
  app_created_at :: datetime

record Appointment =
  appt_id :: int
  resident_id :: int
  appt_officer_id :: int
  appt_application_id :: int
  appointment_date :: datetime
  duration_minutes :: int
  appt_status :: string

record WeeklySchedule =
  ws_id :: int
  ws_officer_id :: int
  day_of_week :: int
  ws_start_time :: time
  ws_end_time :: time
  is_active :: bool

record ScheduledBreak =
  sb_id :: int
  schedule_id :: int
  break_start_time :: time
  break_end_time :: time

record AvailableTimeSlot =
  slot_id :: int
  officer_id :: int
  weekly_schedule_id :: "int option"
  start_time :: datetime
  end_time :: datetime
  is_booked :: bool
  municipality :: "string option"
  station_name :: "string option"
  postal_code :: "string option"

record AddressCertificate =
  cert_id :: int
  cert_application_id :: int
  certificate_number :: string
  issue_date :: datetime
  expiry_date :: datetime
  pdf_path :: string

record db =
  users :: "User list"
  resident_infos :: "ResidentInfo list"
  police_infos :: "PoliceInfo list"
  applications :: "AddressApplication list"
  appointments :: "Appointment list"
  weekly_schedules :: "WeeklySchedule list"
  scheduled_breaks :: "ScheduledBreak list"
  slots :: "AvailableTimeSlot list"
  certificates :: "AddressCertificate list"

subsection \<open>Queries and the session\<close>

text \<open>\<^verbatim>\<open>query.filter(...).first()\<close>: the first matching row, \<^verbatim>\<open>None\<close> when there is none.\<close>

definition first :: "('a \<Rightarrow> bool) \<Rightarrow> 'a list \<Rightarrow> 'a option" where
  "first p rows = find p rows"

text \<open>
  A new row's integer primary key, as SQLite assigns it: one more than the largest key of
  the table, 1 for an empty table.
\<close>

definition new_id :: "int list \<Rightarrow> int" where
  "new_id ids = (case ids of [] \<Rightarrow> 1 | i # is \<Rightarrow> fold max is i + 1)"

text \<open>Replace every row satisfying \<open>p\<close> by \<open>f\<close> of it: an attribute assignment on loaded rows.\<close>

definition update_where :: "('a \<Rightarrow> bool) \<Rightarrow> ('a \<Rightarrow> 'a) \<Rightarrow> 'a list \<Rightarrow> 'a list" where
  "update_where p f rows = map (\<lambda>r. if p r then f r else r) rows"

text \<open>
  An attribute assignment on the one row that \<^verbatim>\<open>query.get\<close> or \<^verbatim>\<open>.first()\<close> loaded: the first
  row satisfying \<open>p\<close> is replaced by \<open>f\<close> of it.
\<close>

fun update_first :: "('a \<Rightarrow> bool) \<Rightarrow> ('a \<Rightarrow> 'a) \<Rightarrow> 'a list \<Rightarrow> 'a list" where
  "update_first p f [] = []"
| "update_first p f (r # rows) = (if p r then f r # rows else r # update_first p f rows)"

text \<open>
  \<^verbatim>\<open>db.session.commit()\<close>. The routes change loaded rows and add new ones in the session;
  nothing is committed before. The commit writes the pending state, or raises and writes
  nothing (\<open>ok\<close> is false: the store is not available, or a constraint rejects a pending
  row). After an exception the session is rolled back, by the route's \<^verbatim>\<open>except\<close> branch or
  at the end of the request, so the store stays as it was.
\<close>

definition commit :: "bool \<Rightarrow> db \<Rightarrow> db option" where
  "commit ok pending = (if ok then Some pending else None)"

text \<open>\<^verbatim>\<open>load_user\<close>: the row of the logged-in user (\<^verbatim>\<open>current_user\<close>).\<close>

definition load_user :: "db \<Rightarrow> int \<Rightarrow> User option" where
  "load_user d uid = first (\<lambda>u. user_id u = uid) (users d)"

text \<open>
  A form field: absent (\<^verbatim>\<open>None\<close>), the empty string, a string that its parser rejects, or
  the parsed value. The first two are the falsy ones.
\<close>

datatype 'a field = Absent | Empty | Malformed | Parsed 'a

fun falsy :: "'a field \<Rightarrow> bool" where
  "falsy Absent = True"
| "falsy Empty = True"
| "falsy _ = False"

section \<open>Slot generation: \<^verbatim>\<open>police_add_weekly_availability\<close>\<close>

definition interview_duration :: timedelta where
  "interview_duration = timedelta_minutes 30"

definition gap_duration :: timedelta where
  "gap_duration = timedelta_minutes 15"

text \<open>The inner \<^verbatim>\<open>for break_start, break_end in break_times\<close> loop with its \<^verbatim>\<open>break\<close>.\<close>

definition is_break_time :: "(time \<times> time) list \<Rightarrow> datetime \<Rightarrow> datetime \<Rightarrow> bool" where
  "is_break_time break_times current_slot_start current_slot_end =
     list_ex (\<lambda>(break_start, break_end).
        time_of current_slot_start < break_end \<and> time_of current_slot_end > break_start)
       break_times"

text \<open>The query for the officer's slots that overlap \<open>[s, e)\<close>.\<close>

definition overlapping_slots :: "int \<Rightarrow> datetime \<Rightarrow> datetime \<Rightarrow> AvailableTimeSlot list \<Rightarrow> AvailableTimeSlot list" where
  "overlapping_slots oid s e rows =
     filter (\<lambda>r. officer_id r = oid \<and> start_time r < e \<and> end_time r > s) rows"

definition new_slot :: "int \<Rightarrow> int option \<Rightarrow> PoliceInfo option \<Rightarrow> datetime \<Rightarrow> datetime \<Rightarrow> AvailableTimeSlot list \<Rightarrow> AvailableTimeSlot" where
  "new_slot oid sched info s e rows =
     \<lparr>slot_id = new_id (map slot_id rows), officer_id = oid, weekly_schedule_id = sched,
      start_time = s, end_time = e, is_booked = False,
      municipality = map_option pi_municipality info,
      station_name = map_option pi_stationName info,
      postal_code = map_option pi_postalCode info\<rparr>"

text \<open>
  The \<^verbatim>\<open>while current_slot_start + interview_duration <= day_end\<close> loop of one occurrence.
  The overlap query flushes the session first, so it sees the slots added so far.
\<close>

function walk :: "int \<Rightarrow> int \<Rightarrow> PoliceInfo \<Rightarrow> (time \<times> time) list \<Rightarrow> datetime \<Rightarrow> datetime \<Rightarrow> AvailableTimeSlot list \<Rightarrow> AvailableTimeSlot list" where
  "walk oid sched info break_times day_end current_slot_start rows =
     (if current_slot_start + interview_duration \<le> day_end then
        (let current_slot_end = current_slot_start + interview_duration in
         if is_break_time break_times current_slot_start current_slot_end then
           walk oid sched info break_times day_end current_slot_end rows
         else
           walk oid sched info break_times day_end (current_slot_end + gap_duration)
             (if overlapping_slots oid current_slot_start current_slot_end rows = []
              then rows @ [new_slot oid (Some sched) (Some info) current_slot_start current_slot_end rows]
              else rows))
      else rows)"
  by pat_completeness auto
termination
  by (relation "measure (\<lambda>(oid, sched, info, break_times, day_end, cur, rows). nat (day_end - cur))")
     (auto simp: interview_duration_def gap_duration_def timedelta_minutes_def)

declare walk.simps [simp del]

text \<open>
  What a route answers: the flashed message, named by its meaning. The redirect target is
  left out; \<open>ServerError\<close> is an exception that no \<^verbatim>\<open>except\<close> of the route catches
  (HTTP 500), \<open>NotFound404\<close> the abort of \<^verbatim>\<open>get_or_404\<close>.
\<close>

datatype response =
    LoginRequired
  | AccessDenied
  | PendingApproval
  | ServerError
  | NotFound404
  | MissingInput
  | InvalidFormat
  | StartNotBeforeEnd
  | InThePast
  | OverlapsExisting
  | ScheduleExists
  | ErrorOccurred
  | SlotAdded
  | WeeklyScheduleAdded nat
  | ApplicationNotFound
  | NotReadyForScheduling
  | NotLeaderApproved
  | AlreadyScheduled
  | SlotNotFound
  | SlotNoLongerAvailable
  | BookedAndApproved
  | InterviewScheduled
  | AppointmentNotFound
  | CannotBeCancelled
  | InterviewCancelled
  | ProfileUpdated
  | FillAllFields
  | Page

text \<open>
  The loop over the submitted break fields. A falsy start is skipped without reading the
  end; otherwise \<^verbatim>\<open>break_ends[i]\<close> is read, which raises \<^verbatim>\<open>IndexError\<close> (here \<open>None\<close>) when
  the list is too short. A pair that does not parse is skipped by the inner \<^verbatim>\<open>except\<close>.
\<close>

fun add_breaks :: "int \<Rightarrow> time field list \<Rightarrow> time field list \<Rightarrow> ScheduledBreak list \<Rightarrow> ScheduledBreak list option" where
  "add_breaks sched [] break_ends rows = Some rows"
| "add_breaks sched (Absent # break_starts) break_ends rows =
     add_breaks sched break_starts (tl break_ends) rows"
| "add_breaks sched (Empty # break_starts) break_ends rows =
     add_breaks sched break_starts (tl break_ends) rows"
| "add_breaks sched (bs # break_starts) [] rows = None"
| "add_breaks sched (Parsed s # break_starts) (Parsed e # break_ends) rows =
     add_breaks sched break_starts break_ends
       (rows @ [\<lparr>sb_id = new_id (map sb_id rows), schedule_id = sched,
                 break_start_time = s, break_end_time = e\<rparr>])"
| "add_breaks sched (bs # break_starts) (be # break_ends) rows =
     add_breaks sched break_starts break_ends rows"

text \<open>Days until the next occurrence of the schedule's day; a week later when today's has ended.\<close>

definition days_ahead :: "int \<Rightarrow> datetime \<Rightarrow> time \<Rightarrow> int" where
  "days_ahead dow now end_time_obj =
     (let da = (dow - weekday (date_of now)) mod 7 in
      if da = 0 then (if time_of now \<ge> end_time_obj then 7 else da) else da)"

text \<open>
  The body of \<^verbatim>\<open>for week in range(4)\<close>. \<open>clock week\<close> is what \<^verbatim>\<open>datetime.now()\<close> returns
  in that iteration.
\<close>

definition generate_week :: "int \<Rightarrow> int \<Rightarrow> PoliceInfo \<Rightarrow> (time \<times> time) list \<Rightarrow> date \<Rightarrow> time \<Rightarrow> time \<Rightarrow> (nat \<Rightarrow> datetime) \<Rightarrow> nat \<Rightarrow> AvailableTimeSlot list \<Rightarrow> AvailableTimeSlot list" where
  "generate_week oid sched info break_times next_date start_time_obj end_time_obj clock week rows =
     (let slot_date = next_date + int week * 7;
          day_start = combine slot_date start_time_obj;
          day_end = combine slot_date end_time_obj
      in if day_start < clock week then rows
         else walk oid sched info break_times day_end day_start rows)"

definition generate_slots :: "int \<Rightarrow> int \<Rightarrow> PoliceInfo \<Rightarrow> (time \<times> time) list \<Rightarrow> int \<Rightarrow> time \<Rightarrow> time \<Rightarrow> datetime \<Rightarrow> (nat \<Rightarrow> datetime) \<Rightarrow> AvailableTimeSlot list \<Rightarrow> AvailableTimeSlot list" where
  "generate_slots oid sched info break_times dow start_time_obj end_time_obj now clock rows =
     (let next_date = date_of now + days_ahead dow now end_time_obj in
      fold (generate_week oid sched info break_times next_date start_time_obj end_time_obj clock)
        [0..<4] rows)"

text \<open>
  The route. \<open>now\<close> and \<open>clock\<close> are the readings of \<^verbatim>\<open>datetime.now()\<close>, \<open>io_ok\<close> whether
  the store accepts the commit, \<open>uid\<close> the logged-in user, and the fields the parsed form.
  The first test asks of the day only that it is not \<^verbatim>\<open>None\<close>: an empty day goes on to
  \<^verbatim>\<open>int('')\<close>, which raises like any other malformed field.
  The success message indexes \<^verbatim>\<open>days[day_of_week]\<close> after the commit: an index outside the
  list raises inside the \<^verbatim>\<open>try\<close>, and the rollback then has nothing left to undo.
\<close>

definition police_add_weekly_availability :: "datetime \<Rightarrow> (nat \<Rightarrow> datetime) \<Rightarrow> bool \<Rightarrow> int \<Rightarrow> int field \<Rightarrow> time field \<Rightarrow> time field \<Rightarrow> time field list \<Rightarrow> time field list \<Rightarrow> db \<Rightarrow> response \<times> db" where
  "police_add_weekly_availability now clock io_ok uid dow_f start_f end_f break_starts break_ends d =
     (case load_user d uid of
        None \<Rightarrow> (LoginRequired, d)
      | Some current_user \<Rightarrow>
        if userType current_user \<noteq> ''police'' then (AccessDenied, d)
        else (case first (\<lambda>p. pi_user_id p = uid) (police_infos d) of
           None \<Rightarrow> (PendingApproval, d)
         | Some police_info \<Rightarrow>
           if \<not> pi_isApproved police_info then (PendingApproval, d)
           else if dow_f = Absent \<or> falsy start_f \<or> falsy end_f then (MissingInput, d)
           else (case (dow_f, start_f, end_f) of
              (Parsed dow, Parsed start_time_obj, Parsed end_time_obj) \<Rightarrow>
                if start_time_obj \<ge> end_time_obj then (StartNotBeforeEnd, d)
                else if first (\<lambda>w. ws_officer_id w = uid \<and> day_of_week w = dow \<and> is_active w)
                          (weekly_schedules d) \<noteq> None
                then (ScheduleExists, d)
                else
                  (let sched = new_id (map ws_id (weekly_schedules d));
                       new_schedule = \<lparr>ws_id = sched, ws_officer_id = uid, day_of_week = dow,
                          ws_start_time = start_time_obj, ws_end_time = end_time_obj,
                          is_active = True\<rparr>
                   in case add_breaks sched break_starts break_ends (scheduled_breaks d) of
                        None \<Rightarrow> (ErrorOccurred, d)
                      | Some breaks \<Rightarrow>
                        (let break_times = map (\<lambda>b. (break_start_time b, break_end_time b))
                               (filter (\<lambda>b. schedule_id b = sched) breaks);
                             rows = generate_slots uid sched police_info break_times dow
                               start_time_obj end_time_obj now clock (slots d);
                             pending = d\<lparr>weekly_schedules := weekly_schedules d @ [new_schedule],
                               scheduled_breaks := breaks, slots := rows\<rparr>
                         in case commit io_ok pending of
                              None \<Rightarrow> (ErrorOccurred, d)
                            | Some d' \<Rightarrow>
                              (if - 7 \<le> dow \<and> dow < 7
                               then WeeklyScheduleAdded (length rows - length (slots d))
                               else ErrorOccurred, d')))
            | _ \<Rightarrow> (InvalidFormat, d))))"

section \<open>Ad-hoc slots: \<^verbatim>\<open>police_add_availability\<close>\<close>

text \<open>
  The form is the pair of datetimes parsed from \<^verbatim>\<open>slot_date\<close>, \<^verbatim>\<open>start_time\<close> and
  \<^verbatim>\<open>end_time\<close>: falsy when one of the three is absent or empty, \<open>Malformed\<close> when
  \<^verbatim>\<open>strptime\<close> raises.
\<close>

definition police_add_availability :: "datetime \<Rightarrow> bool \<Rightarrow> int \<Rightarrow> (datetime \<times> datetime) field \<Rightarrow> db \<Rightarrow> response \<times> db" where
  "police_add_availability now io_ok uid form d =
     (case load_user d uid of
        None \<Rightarrow> (LoginRequired, d)
      | Some current_user \<Rightarrow>
        if userType current_user \<noteq> ''police'' then (AccessDenied, d)
        else (case first (\<lambda>p. pi_user_id p = uid) (police_infos d) of
           None \<Rightarrow> (PendingApproval, d)
         | Some police_info \<Rightarrow>
           if \<not> pi_isApproved police_info then (PendingApproval, d)
           else (case form of
              Absent \<Rightarrow> (MissingInput, d)
            | Empty \<Rightarrow> (MissingInput, d)
            | Malformed \<Rightarrow> (InvalidFormat, d)
            | Parsed (start_datetime, end_datetime) \<Rightarrow>
                if start_datetime \<ge> end_datetime then (StartNotBeforeEnd, d)
                else if start_datetime < now then (InThePast, d)
                else if overlapping_slots uid start_datetime end_datetime (slots d) \<noteq> []
                then (OverlapsExisting, d)
                else (case commit io_ok
                        (d\<lparr>slots := slots d @
                           [new_slot uid None (Some police_info) start_datetime end_datetime (slots d)]\<rparr>) of
                      None \<Rightarrow> (ErrorOccurred, d)
                    | Some d' \<Rightarrow> (SlotAdded, d')))))"

section \<open>Scheduling with demo slots: \<^verbatim>\<open>schedule_interview\<close>\<close>

datatype 'a request = Get | Post 'a

text \<open>
  The mock slots "for demo purposes": seven days from tomorrow, at 9, 11, 13 and 15 o'clock,
  half an hour each, for the first approved officer; no overlap query precedes them.
\<close>

definition demo_times :: "datetime \<Rightarrow> datetime list" where
  "demo_times now =
     concat (map (\<lambda>day. map (\<lambda>hour.
        combine (date_of (now + timedelta_days 1 + timedelta_days (int day))) 0 + timedelta_hours hour)
       [9, 11, 13, 15]) [0..<7])"

definition add_demo_slots :: "int \<Rightarrow> datetime \<Rightarrow> AvailableTimeSlot list \<Rightarrow> AvailableTimeSlot list" where
  "add_demo_slots oid now rows =
     fold (\<lambda>slot_time rows. rows @
        [new_slot oid None None slot_time (slot_time + timedelta_minutes 30) rows])
       (demo_times now) rows"

text \<open>
  \<^verbatim>\<open>User.query.join(PoliceInfo).filter(PoliceInfo.isApproved == True).all()\<close>: the user of
  every approved \<^verbatim>\<open>police_info\<close> row. The query has no \<^verbatim>\<open>ORDER BY\<close>; the rows come in the
  order of the \<^verbatim>\<open>police_info\<close> table, which the filter scans.
\<close>

definition approved_officers :: "db \<Rightarrow> User list" where
  "approved_officers d =
     concat (map (\<lambda>p. filter (\<lambda>usr. user_id usr = pi_user_id p) (users d))
       (filter pi_isApproved (police_infos d)))"

text \<open>
  The two commits of the route get a flag each; neither is inside a \<^verbatim>\<open>try\<close>.
  A \<open>Post\<close> carries the \<^verbatim>\<open>time_slot\<close> field of the form.
\<close>

definition schedule_interview :: "datetime \<Rightarrow> bool \<Rightarrow> bool \<Rightarrow> int \<Rightarrow> int \<Rightarrow> int option request \<Rightarrow> db \<Rightarrow> response \<times> db" where
  "schedule_interview now io_ok io_ok2 uid application_id req d =
     (case load_user d uid of
        None \<Rightarrow> (LoginRequired, d)
      | Some current_user \<Rightarrow>
        if userType current_user \<noteq> ''resident'' then (AccessDenied, d)
        else (case first (\<lambda>a. app_id a = application_id) (applications d) of
           None \<Rightarrow> (NotFound404, d)
         | Some application \<Rightarrow>
           if applicant_id application \<noteq> uid then (AccessDenied, d)
           else if app_status application \<noteq> ''leader_approved'' then (NotReadyForScheduling, d)
           else
             (let officers = approved_officers d;
                  available_slots = filter (\<lambda>s. \<not> is_booked s) (slots d)
              in case (case officers of
                         officer # _ \<Rightarrow>
                           if available_slots = []
                           then commit io_ok (d\<lparr>slots := add_demo_slots (user_id officer) now (slots d)\<rparr>)
                           else Some d
                       | [] \<Rightarrow> Some d) of
                   None \<Rightarrow> (ServerError, d)
                 | Some d1 \<Rightarrow>
                   (case req of
                      Get \<Rightarrow> (Page, d1)
                    | Post None \<Rightarrow> (MissingInput, d1)
                    | Post (Some sid) \<Rightarrow>
                      (case first (\<lambda>s. slot_id s = sid) (slots d1) of
                         None \<Rightarrow> (SlotNoLongerAvailable, d1)
                       | Some slot \<Rightarrow>
                         if is_booked slot then (SlotNoLongerAvailable, d1)
                         else (case commit io_ok2
                            (d1\<lparr>slots := update_first (\<lambda>s. slot_id s = sid)
                                   (\<lambda>s. s\<lparr>is_booked := True\<rparr>) (slots d1),
                                appointments := appointments d1 @
                                  [\<lparr>appt_id = new_id (map appt_id (appointments d1)),
                                    resident_id = uid, appt_officer_id = officer_id slot,
                                    appt_application_id = app_id application,
                                    appointment_date = start_time slot, duration_minutes = 30,
                                    appt_status = ''scheduled''\<rparr>],
                                applications := update_first (\<lambda>a. app_id a = application_id)
                                   (\<lambda>a. a\<lparr>app_status := ''interview_scheduled'',
                                           app_officer_id := Some (officer_id slot)\<rparr>)
                                   (applications d1)\<rparr>) of
                            None \<Rightarrow> (ServerError, d1)
                          | Some d2 \<Rightarrow> (InterviewScheduled, d2)))))))"

section \<open>Certificates\<close>

text \<open>
  \<^verbatim>\<open>uuid.uuid4().hex\<close> is the 128-bit value of the UUID as 32 lower-case hexadecimal digits,
  most significant first. The random value is an input of the model.
\<close>

definition hexdigit :: "nat \<Rightarrow> char" where
  "hexdigit n = ''0123456789abcdef'' ! n"

definition uuid_hex :: "128 word \<Rightarrow> string" where
  "uuid_hex u = map (\<lambda>i. hexdigit (unat (drop_bit (4 * (31 - i)) u AND 15))) [0..<32]"

text \<open>\<^verbatim>\<open>str.upper()\<close> on ASCII.\<close>

definition upper_char :: "char \<Rightarrow> char" where
  "upper_char c =
     (if 97 \<le> (of_char c :: nat) \<and> (of_char c :: nat) \<le> 122
      then char_of ((of_char c :: nat) - 32) else c)"

definition upper :: "string \<Rightarrow> string" where
  "upper s = map upper_char s"

definition new_certificate :: "datetime \<Rightarrow> 128 word \<Rightarrow> int \<Rightarrow> AddressCertificate list \<Rightarrow> AddressCertificate" where
  "new_certificate now u application rows =
     (let certificate_number = ''AM-'' @ upper (take 8 (uuid_hex u));
          issue_date = now;
          expiry_date = issue_date + timedelta_days 365
      in \<lparr>cert_id = new_id (map cert_id rows), cert_application_id = application,
          certificate_number = certificate_number, issue_date = issue_date,
          expiry_date = expiry_date, pdf_path = ''/static/certificates/demo_certificate.pdf''\<rparr>)"

section \<open>Booking: \<^verbatim>\<open>book_interview_slot\<close>\<close>

text \<open>
  The two form fields are the ids they carry, \<open>None\<close> when absent or empty. The slot and
  the application are changed in the session, the appointment and the certificate are
  built, and the \<^verbatim>\<open>try\<close> adds both and commits; the \<^verbatim>\<open>except\<close> rolls everything back.
  The commit raises when \<open>io_ok\<close> is false or when the new certificate number is already
  in the table (\<^verbatim>\<open>certificate_number\<close> is \<^verbatim>\<open>unique=True\<close>).
\<close>

definition book_interview_slot :: "datetime \<Rightarrow> 128 word \<Rightarrow> bool \<Rightarrow> int \<Rightarrow> int option \<Rightarrow> int option \<Rightarrow> db \<Rightarrow> response \<times> db" where
  "book_interview_slot now u io_ok uid slot_id_f application_id_f d =
     (case load_user d uid of
        None \<Rightarrow> (LoginRequired, d)
      | Some current_user \<Rightarrow>
        if userType current_user \<noteq> ''resident'' then (AccessDenied, d)
        else (case (slot_id_f, application_id_f) of
           (Some sid, Some aid) \<Rightarrow>
             (case first (\<lambda>a. app_id a = aid) (applications d) of
                None \<Rightarrow> (ApplicationNotFound, d)
              | Some application \<Rightarrow>
                if applicant_id application \<noteq> uid then (ApplicationNotFound, d)
                else if app_status application \<noteq> ''leader_approved'' then (NotReadyForScheduling, d)
                else (case first (\<lambda>s. slot_id s = sid) (slots d) of
                   None \<Rightarrow> (SlotNotFound, d)
                 | Some time_slot \<Rightarrow>
                   if is_booked time_slot then (SlotNoLongerAvailable, d)
                   else
                     (let appointment =
                            \<lparr>appt_id = new_id (map appt_id (appointments d)), resident_id = uid,
                             appt_officer_id = officer_id time_slot,
                             appt_application_id = app_id application,
                             appointment_date = start_time time_slot, duration_minutes = 30,
                             appt_status = ''completed''\<rparr>;
                          rows = update_first (\<lambda>s. slot_id s = sid)
                                   (\<lambda>s. s\<lparr>is_booked := True\<rparr>) (slots d);
                          buffer_end_time = end_time time_slot + timedelta_minutes 15;
                          rows' = update_where
                                   (\<lambda>s. officer_id s = officer_id time_slot \<and>
                                        slot_id s \<noteq> slot_id time_slot \<and>
                                        is_booked s = False \<and>
                                        start_time s < buffer_end_time \<and>
                                        end_time s > start_time time_slot)
                                   (\<lambda>s. s\<lparr>is_booked := True\<rparr>) rows;
                          apps = update_first (\<lambda>a. app_id a = aid)
                                   (\<lambda>a. a\<lparr>app_status := ''approved'',
                                           app_officer_id := Some (officer_id time_slot),
                                           officer_notes := Some ''Auto-approved for testing purposes''\<rparr>)
                                   (applications d);
                          certificate = new_certificate now u (app_id application) (certificates d)
                      in case commit (io_ok \<and> certificate_number certificate \<notin>
                                        set (map certificate_number (certificates d)))
                           (d\<lparr>slots := rows', applications := apps,
                              appointments := appointments d @ [appointment],
                              certificates := certificates d @ [certificate]\<rparr>) of
                           None \<Rightarrow> (ErrorOccurred, d)
                         | Some d' \<Rightarrow> (BookedAndApproved, d'))))
         | _ \<Rightarrow> (MissingInput, d)))"

section \<open>Booking from the location page: \<^verbatim>\<open>resident_schedule_interview\<close>\<close>

text \<open>
  \<^verbatim>\<open>order_by(created_at.desc()).first()\<close>: the newest row; among rows of one age the model
  takes the earliest of the table.
\<close>

fun newest :: "AddressApplication list \<Rightarrow> AddressApplication option" where
  "newest [] = None"
| "newest (a # as) =
     (case newest as of
        None \<Rightarrow> Some a
      | Some b \<Rightarrow> if app_created_at b > app_created_at a then Some b else Some a)"

definition resident_schedule_interview :: "datetime \<Rightarrow> 128 word \<Rightarrow> bool \<Rightarrow> int \<Rightarrow> int option request \<Rightarrow> db \<Rightarrow> response \<times> db" where
  "resident_schedule_interview now u io_ok uid req d =
     (case load_user d uid of
        None \<Rightarrow> (LoginRequired, d)
      | Some current_user \<Rightarrow>
        if userType current_user \<noteq> ''resident'' then (AccessDenied, d)
        else (case newest (filter (\<lambda>a. applicant_id a = uid \<and> app_status a = ''leader_approved'')
                             (applications d)) of
           None \<Rightarrow> (NotLeaderApproved, d)
         | Some pending_application \<Rightarrow>
           if first (\<lambda>a. appt_application_id a = app_id pending_application) (appointments d) \<noteq> None
           then (AlreadyScheduled, d)
           else (case req of
              Get \<Rightarrow> (Page, d)
            | Post None \<Rightarrow> (MissingInput, d)
            | Post (Some sid) \<Rightarrow>
              (case first (\<lambda>s. slot_id s = sid) (slots d) of
                 None \<Rightarrow> (SlotNoLongerAvailable, d)
               | Some time_slot \<Rightarrow>
                 if is_booked time_slot then (SlotNoLongerAvailable, d)
                 else
                   (let appointment =
                          \<lparr>appt_id = new_id (map appt_id (appointments d)), resident_id = uid,
                           appt_officer_id = officer_id time_slot,
                           appt_application_id = app_id pending_application,
                           appointment_date = start_time time_slot, duration_minutes = 30,
                           appt_status = ''completed''\<rparr>;
                        rows = update_first (\<lambda>s. slot_id s = sid)
                                 (\<lambda>s. s\<lparr>is_booked := True\<rparr>) (slots d);
                        apps = update_first (\<lambda>a. app_id a = app_id pending_application)
                                 (\<lambda>a. a\<lparr>app_status := ''approved'',
                                         app_officer_id := Some (officer_id time_slot),
                                         officer_notes := Some ''Auto-approved for testing purposes''\<rparr>)
                                 (applications d);
                        certificate = new_certificate now u (app_id pending_application) (certificates d)
                    in case commit (io_ok \<and> certificate_number certificate \<notin>
                                      set (map certificate_number (certificates d)))
                         (d\<lparr>slots := rows, applications := apps,
                            appointments := appointments d @ [appointment],
                            certificates := certificates d @ [certificate]\<rparr>) of
                         None \<Rightarrow> (ErrorOccurred, d)
                       | Some d' \<Rightarrow> (BookedAndApproved, d'))))))"

section \<open>Cancelling: \<^verbatim>\<open>cancel_interview\<close>\<close>

definition cancel_interview :: "bool \<Rightarrow> int \<Rightarrow> int option \<Rightarrow> db \<Rightarrow> response \<times> db" where
  "cancel_interview io_ok uid appointment_id_f d =
     (case load_user d uid of
        None \<Rightarrow> (LoginRequired, d)
      | Some current_user \<Rightarrow>
        if userType current_user \<noteq> ''resident'' then (AccessDenied, d)
        else (case appointment_id_f of
           None \<Rightarrow> (MissingInput, d)
         | Some appointment_id \<Rightarrow>
           (case first (\<lambda>a. appt_id a = appointment_id) (appointments d) of
              None \<Rightarrow> (AppointmentNotFound, d)
            | Some appointment \<Rightarrow>
              if resident_id appointment \<noteq> uid then (AppointmentNotFound, d)
              else if appt_status appointment \<noteq> ''scheduled'' then (CannotBeCancelled, d)
              else (case commit io_ok
                 (d\<lparr>appointments := update_first (\<lambda>a. appt_id a = appointment_id)
                        (\<lambda>a. a\<lparr>appt_status := ''cancelled''\<rparr>) (appointments d),
                     applications := update_first
                        (\<lambda>a. app_id a = appt_application_id appointment)
                        (\<lambda>a. a\<lparr>app_status := ''leader_approved''\<rparr>) (applications d),
                     slots := update_first
                        (\<lambda>s. officer_id s = appt_officer_id appointment \<and>
                             start_time s = appointment_date appointment \<and>
                             is_booked s = True)
                        (\<lambda>s. s\<lparr>is_booked := False\<rparr>) (slots d)\<rparr>) of
                 None \<Rightarrow> (ErrorOccurred, d)
               | Some d' \<Rightarrow> (InterviewCancelled, d')))))"

section \<open>Profile changes: \<^verbatim>\<open>resident_profile_settings\<close>\<close>

text \<open>
  The \<^verbatim>\<open>POST\<close> with \<^verbatim>\<open>form_type == 'personal_info'\<close>; a form string is \<open>None\<close> when the
  field is absent. The assignments to a missing \<^verbatim>\<open>resident_info\<close> raise, and the commit is
  outside any \<^verbatim>\<open>try\<close>; it raises when \<open>io_ok\<close> is false or when another user has the new
  email (\<^verbatim>\<open>User.email\<close> is \<^verbatim>\<open>unique=True\<close>).
\<close>

definition resident_profile_settings :: "bool \<Rightarrow> int \<Rightarrow> string option \<Rightarrow> string option \<Rightarrow> string option \<Rightarrow> string option \<Rightarrow> db \<Rightarrow> response \<times> db" where
  "resident_profile_settings io_ok uid first_name_f last_name_f phone_number_f email_f d =
     (case load_user d uid of
        None \<Rightarrow> (LoginRequired, d)
      | Some current_user \<Rightarrow>
        if userType current_user \<noteq> ''resident'' then (AccessDenied, d)
        else (case (first_name_f, last_name_f, phone_number_f, email_f) of
           (Some first_name, Some last_name, Some phone_number, Some email_s) \<Rightarrow>
             if first_name \<noteq> [] \<and> last_name \<noteq> [] \<and> phone_number \<noteq> [] \<and> email_s \<noteq> [] then
               (case first (\<lambda>r. ri_user_id r = uid) (resident_infos d) of
                  None \<Rightarrow> (ServerError, d)
                | Some resident_info \<Rightarrow>
                  (case commit (io_ok \<and> email_s \<notin>
                                  set (map email (filter (\<lambda>usr. user_id usr \<noteq> uid) (users d))))
                     (d\<lparr>resident_infos := update_first (\<lambda>r. ri_user_id r = uid)
                            (\<lambda>r. r\<lparr>ri_firstName := first_name, ri_lastName := last_name,
                                    ri_phoneNumber := phone_number\<rparr>) (resident_infos d),
                         users := update_first (\<lambda>usr. user_id usr = uid)
                            (\<lambda>usr. usr\<lparr>email := email_s,
                                        fullName := first_name @ '' '' @ last_name,
                                        isVerified := False\<rparr>) (users d),
                         applications := update_where
                            (\<lambda>a. applicant_id a = uid \<and> app_status a = ''pending'')
                            (\<lambda>a. a\<lparr>app_status := ''cancelled'',
                                    leader_notes := Some ''Application cancelled due to profile information change.''\<rparr>)
                            (applications d)\<rparr>) of
                     None \<Rightarrow> (ServerError, d)
                   | Some d' \<Rightarrow> (ProfileUpdated, d')))
             else (FillAllFields, d)
         | _ \<Rightarrow> (FillAllFields, d)))"

section \<open>Properties and example data\<close>

definition interval :: "AvailableTimeSlot \<Rightarrow> datetime \<times> datetime" where
  "interval s = (start_time s, end_time s)"

text \<open>Two slots of one officer overlap when their half-open intervals intersect.\<close>

definition overlaps :: "AvailableTimeSlot \<Rightarrow> AvailableTimeSlot \<Rightarrow> bool" where
  "overlaps a b \<longleftrightarrow>
     officer_id a = officer_id b \<and> start_time a < end_time b \<and> end_time a > start_time b"

fun no_overlap :: "AvailableTimeSlot list \<Rightarrow> bool" where
  "no_overlap [] = True"
| "no_overlap (s # rows) = (list_all (\<lambda>t. \<not> overlaps s t) rows \<and> no_overlap rows)"

text \<open>
  Example data. Sunday 2026-11-01 has ordinal 739921, Monday 2026-11-02 has 739922 and
  Tuesday 2026-11-03 has 739923. One resident with a leader-approved application and one
  approved officer.
\<close>

definition resident1 :: User where
  "resident1 = \<lparr>user_id = 1, fullName = ''Thabo Nkosi'', email = ''thabo@example.org'',
     userType = ''resident'', isVerified = True\<rparr>"

definition officer7 :: User where
  "officer7 = \<lparr>user_id = 7, fullName = ''Lerato Dube'', email = ''lerato@example.org'',
     userType = ''police'', isVerified = True\<rparr>"

definition resident1_info :: ResidentInfo where
  "resident1_info = \<lparr>ri_user_id = 1, ri_firstName = ''Thabo'', ri_lastName = ''Nkosi'',
     ri_phoneNumber = ''0820000000''\<rparr>"

definition officer7_info :: PoliceInfo where
  "officer7_info = \<lparr>pi_user_id = 7, pi_stationName = ''Central'', pi_municipality = ''Tshwane'',
     pi_postalCode = ''0002'', pi_isApproved = True\<rparr>"

definition application1 :: AddressApplication where
  "application1 = \<lparr>app_id = 1, applicant_id = 1, app_officer_id = None,
     app_status = ''leader_approved'', leader_notes = None, officer_notes = None,
     app_created_at = combine 739900 (hm 12 0)\<rparr>"

definition empty_db :: db where
  "empty_db = \<lparr>users = [resident1, officer7], resident_infos = [resident1_info],
     police_infos = [officer7_info], applications = [application1], appointments = [],
     weekly_schedules = [], scheduled_breaks = [], slots = [], certificates = []\<rparr>"

definition sunday_morning :: datetime where
  "sunday_morning = combine 739921 (hm 8 0)"

text \<open>A clock that reads the same time in every iteration.\<close>

definition steady_clock :: "datetime \<Rightarrow> nat \<Rightarrow> datetime" where
  "steady_clock t week = t"

definition monday_at_ten :: datetime where
  "monday_at_ten = combine 739922 (hm 10 0)"

definition monday_afternoon :: datetime where
  "monday_afternoon = combine 739922 (hm 14 0)"

definition slot_9_00 :: AvailableTimeSlot where
  "slot_9_00 = \<lparr>slot_id = 1, officer_id = 7, weekly_schedule_id = None,
     start_time = combine 739923 (hm 9 0), end_time = combine 739923 (hm 9 30),
     is_booked = False, municipality = Some ''Tshwane'', station_name = Some ''Central'',
     postal_code = Some ''0002''\<rparr>"

definition slot_9_30 :: AvailableTimeSlot where
  "slot_9_30 = \<lparr>slot_id = 2, officer_id = 7, weekly_schedule_id = None,
     start_time = combine 739923 (hm 9 30), end_time = combine 739923 (hm 10 0),
     is_booked = False, municipality = Some ''Tshwane'', station_name = Some ''Central'',
     postal_code = Some ''0002''\<rparr>"

text \<open>Two adjacent ad-hoc slots of the officer on Tuesday, both free.\<close>

definition adjacent_slots :: db where
  "adjacent_slots = empty_db\<lparr>slots := [slot_9_00, slot_9_30]\<rparr>"

text \<open>The officer's only slot, Tuesday 09:00, is booked; no free slot exists.\<close>

definition booked_tomorrow :: db where
  "booked_tomorrow = empty_db\<lparr>slots := [slot_9_00\<lparr>is_booked := True\<rparr>]\<rparr>"

text \<open>
  An interview in status \<^verbatim>\<open>scheduled\<close> for the 09:00 slot; the neighbouring slot is booked
  too.
\<close>

definition appointment1 :: Appointment where
  "appointment1 = \<lparr>appt_id = 1, resident_id = 1, appt_officer_id = 7, appt_application_id = 1,
     appointment_date = combine 739923 (hm 9 0), duration_minutes = 30,
     appt_status = ''scheduled''\<rparr>"

definition scheduled_db :: db where
  "scheduled_db = empty_db\<lparr>
     applications := [application1\<lparr>app_status := ''interview_scheduled'', app_officer_id := Some 7\<rparr>],
     appointments := [appointment1],
     slots := [slot_9_00\<lparr>is_booked := True\<rparr>, slot_9_30\<lparr>is_booked := True\<rparr>]\<rparr>"

text \<open>The resident's application is still pending.\<close>

definition pending_db :: db where
  "pending_db = empty_db\<lparr>applications := [application1\<lparr>app_status := ''pending''\<rparr>]\<rparr>"

section \<open>Auxiliary facts\<close>

subsection \<open>Rows and keys\<close>

lemma find_holds: "find p xs = Some x \<Longrightarrow> p x"
  by (induction xs) (auto split: if_splits)

lemma find_append_fresh:
  "(\<And>x. x \<in> set xs \<Longrightarrow> \<not> p x) \<Longrightarrow> p a \<Longrightarrow> find p (xs @ [a]) = Some a"
  by (induction xs) auto

lemma find_update_first:
  "(\<And>x. p x \<Longrightarrow> p (f x)) \<Longrightarrow> find p (update_first p f xs) = map_option f (find p xs)"
  by (induction xs) auto

lemma find_map_same:
  "(\<And>x. p (h x) = p x) \<Longrightarrow> find p (map h xs) = map_option h (find p xs)"
  by (induction xs) auto

lemma update_first_none: "find p xs = None \<Longrightarrow> update_first p f xs = xs"
  by (induction xs) (auto split: if_splits)

lemma update_first_split:
  "find p xs = Some x \<Longrightarrow>
   \<exists>pre post. xs = pre @ x # post \<and> list_all (\<lambda>y. \<not> p y) pre \<and>
               update_first p f xs = pre @ f x # post"
proof (induction xs)
  case Nil
  then show ?case by simp
next
  case (Cons y ys)
  show ?case
  proof (cases "p y")
    case True
    with Cons.prems have "x = y" by simp
    with True have "y # ys = [] @ x # ys \<and> list_all (\<lambda>y. \<not> p y) [] \<and>
        update_first p f (y # ys) = [] @ f x # ys" by simp
    then show ?thesis by blast
  next
    case False
    with Cons obtain pre post where
      "ys = pre @ x # post" "list_all (\<lambda>y. \<not> p y) pre" "update_first p f ys = pre @ f x # post"
      by auto
    with False have "y # ys = (y # pre) @ x # post \<and> list_all (\<lambda>y. \<not> p y) (y # pre) \<and>
        update_first p f (y # ys) = (y # pre) @ f x # post" by simp
    then show ?thesis by blast
  qed
qed

text \<open>On a table with distinct keys, changing the row found by its key changes that row only.\<close>

lemma update_first_distinct:
  "distinct (map k xs) \<Longrightarrow>
   update_first (\<lambda>s. k s = v) f xs = map (\<lambda>s. if k s = v then f s else s) xs"
proof (induction xs)
  case Nil
  then show ?case by simp
next
  case (Cons x xs)
  show ?case
  proof (cases "k x = v")
    case True
    with Cons.prems have "\<And>y. y \<in> set xs \<Longrightarrow> k y \<noteq> v" by (auto simp: image_iff)
    then have "map (\<lambda>s. if k s = v then f s else s) xs = xs" by (simp add: map_idI)
    with True show ?thesis by simp
  next
    case False
    with Cons show ?thesis by simp
  qed
qed

lemma nth_update_where:
  "i < length xs \<Longrightarrow> update_where p f xs ! i = (if p (xs ! i) then f (xs ! i) else xs ! i)"
  by (simp add: update_where_def)

lemma fold_max_ge: "(i::int) \<le> fold max xs i"
  by (induction xs arbitrary: i) (auto intro: order_trans [OF max.cobounded2])

lemma fold_max_mem: "(x::int) \<in> set xs \<Longrightarrow> x \<le> fold max xs i"
proof (induction xs arbitrary: i)
  case Nil
  then show ?case by simp
next
  case (Cons y ys)
  show ?case
  proof (cases "x = y")
    case True
    have "y \<le> max y i" by simp
    also have "\<dots> \<le> fold max ys (max y i)" by (rule fold_max_ge)
    finally show ?thesis using True by simp
  next
    case False
    with Cons show ?thesis by simp
  qed
qed

text \<open>A new key is larger than every key of the table.\<close>

lemma new_id_fresh: "i \<in> set ids \<Longrightarrow> i < new_id ids"
  using fold_max_ge fold_max_mem
  by (cases ids) (fastforce simp: new_id_def)+

lemma fold_preserves:
  "(\<And>x s. P s \<Longrightarrow> P (f x s)) \<Longrightarrow> P s \<Longrightarrow> P (fold f xs s)"
  by (induction xs arbitrary: s) auto

subsection \<open>Clock arithmetic\<close>

lemmas clock_defs = combine_def hm_def timedelta_hours_def timedelta_minutes_def
  usec_per_day_def interview_duration_def gap_duration_def time_of_def date_of_def

lemma usec_per_day_pos: "0 < usec_per_day"
  by (simp add: usec_per_day_def)

lemma date_of_between:
  assumes "combine d 0 \<le> t" and "t < combine (d + 1) 0"
  shows "date_of t = d"
proof -
  define r where "r = t - d * usec_per_day"
  have r: "0 \<le> r" "r < usec_per_day"
    using assms by (simp_all add: r_def combine_def algebra_simps)
  have "t = r + d * usec_per_day" by (simp add: r_def)
  then have "t div usec_per_day = d + r div usec_per_day"
    using usec_per_day_pos by simp
  also have "r div usec_per_day = 0"
    using r by (rule div_pos_pos_trivial)
  finally show ?thesis by (simp add: date_of_def)
qed

lemma upt_4: "[0..<4] = [0, 1, 2, 3]"
  by (simp add: upt_rec)

section \<open>Booking\<close>

subsection \<open>What a successful booking adds\<close>

lemma book_success_certificates:
  assumes "book_interview_slot now u io_ok uid slot_id_f application_id_f d = (BookedAndApproved, d')"
  shows "\<exists>aid. certificates d' = certificates d @ [new_certificate now u aid (certificates d)]"
  using assms unfolding book_interview_slot_def commit_def Let_def
  by (auto split: option.splits if_splits prod.splits)

lemma book_success_appointment:
  assumes "book_interview_slot now u io_ok uid slot_id_f application_id_f d = (BookedAndApproved, d')"
  shows "\<exists>a. appointments d' = appointments d @ [a] \<and> appt_status a = ''completed'' \<and>
             appt_id a = new_id (map appt_id (appointments d))"
  using assms unfolding book_interview_slot_def commit_def Let_def
  by (auto split: option.splits if_splits prod.splits)

text \<open>
  The buffer of \<^verbatim>\<open>book_interview_slot\<close>: after a successful booking of the slot \<open>time_slot\<close>,
  the booked rows are the rows booked before, the chosen one, and every row of the same
  officer that starts before the end of the slot plus 15 minutes and ends after its start.
\<close>

lemma book_marks_buffer:
  assumes run: "book_interview_slot now u io_ok uid (Some sid) application_id_f d = (BookedAndApproved, d')"
    and slot: "first (\<lambda>s. slot_id s = sid) (slots d) = Some time_slot"
    and keys: "distinct (map slot_id (slots d))"
  shows "slots d' =
     map (\<lambda>s. if slot_id s = sid \<or>
                 (officer_id s = officer_id time_slot \<and>
                  start_time s < end_time time_slot + timedelta_minutes 15 \<and>
                  end_time s > start_time time_slot)
              then s\<lparr>is_booked := True\<rparr> else s) (slots d)"
proof -
  have sid: "slot_id time_slot = sid"
    using slot by (auto simp: first_def dest: find_holds)
  have "slots d' = update_where
          (\<lambda>s. officer_id s = officer_id time_slot \<and> slot_id s \<noteq> slot_id time_slot \<and>
               is_booked s = False \<and> start_time s < end_time time_slot + timedelta_minutes 15 \<and>
               end_time s > start_time time_slot)
          (\<lambda>s. s\<lparr>is_booked := True\<rparr>)
          (update_first (\<lambda>s. slot_id s = sid) (\<lambda>s. s\<lparr>is_booked := True\<rparr>) (slots d))"
    using run slot unfolding book_interview_slot_def commit_def Let_def
    by (auto split: option.splits if_splits)
  also have "\<dots> = map (\<lambda>s. if slot_id s = sid \<or>
                 (officer_id s = officer_id time_slot \<and>
                  start_time s < end_time time_slot + timedelta_minutes 15 \<and>
                  end_time s > start_time time_slot)
              then s\<lparr>is_booked := True\<rparr> else s) (slots d)"
    unfolding update_first_distinct [OF keys] update_where_def sid
    by (auto simp: map_idI)
  finally show ?thesis .
qed

subsection \<open>The buffer on the location page\<close>

text \<open>
  C2. Booking the free slot [T, T+30) for a leader-approved application should also book
  every other free slot of the officer that overlaps [T, T+45). On the store
  \<open>adjacent_slots\<close> (Tuesday 09:00-09:30 and 09:30-10:00, both free) the resident books the
  first slot. \<^verbatim>\<open>resident_schedule_interview\<close> books it and leaves the 09:30 slot free, although
  it starts inside the buffer; \<^verbatim>\<open>book_interview_slot\<close> on the same input books both.
\<close>

theorem location_page_booking_skips_buffer:
  "fst (resident_schedule_interview monday_afternoon 0 True 1 (Post (Some 1)) adjacent_slots)
     = BookedAndApproved \<and>
   map is_booked (slots (snd (resident_schedule_interview monday_afternoon 0 True 1
      (Post (Some 1)) adjacent_slots))) = [True, False] \<and>
   fst (book_interview_slot monday_afternoon 0 True 1 (Some 1) (Some 1) adjacent_slots)
     = BookedAndApproved \<and>
   map is_booked (slots (snd (book_interview_slot monday_afternoon 0 True 1 (Some 1) (Some 1)
      adjacent_slots))) = [True, True]"
  by code_simp

subsection \<open>All or nothing\<close>

lemma book_failure_unchanged:
  assumes "book_interview_slot now u io_ok uid slot_id_f application_id_f d = (r, d')"
    and "r \<noteq> BookedAndApproved"
  shows "d' = d"
  using assms unfolding book_interview_slot_def commit_def Let_def
  by (auto split: option.splits if_splits prod.splits)

lemma book_success_state:
  assumes run: "book_interview_slot now u io_ok uid slot_id_f application_id_f d = (BookedAndApproved, d')"
  shows "\<exists>sid aid time_slot application.
      slot_id_f = Some sid \<and> application_id_f = Some aid \<and>
      find (\<lambda>s. slot_id s = sid) (slots d) = Some time_slot \<and> \<not> is_booked time_slot \<and>
      find (\<lambda>a. app_id a = aid) (applications d) = Some application \<and>
      d' = d\<lparr>slots := update_where
                 (\<lambda>s. officer_id s = officer_id time_slot \<and> slot_id s \<noteq> slot_id time_slot \<and>
                      is_booked s = False \<and>
                      start_time s < end_time time_slot + timedelta_minutes 15 \<and>
                      end_time s > start_time time_slot)
                 (\<lambda>s. s\<lparr>is_booked := True\<rparr>)
                 (update_first (\<lambda>s. slot_id s = sid) (\<lambda>s. s\<lparr>is_booked := True\<rparr>) (slots d)),
              applications := update_first (\<lambda>a. app_id a = aid)
                 (\<lambda>a. a\<lparr>app_status := ''approved'',
                         app_officer_id := Some (officer_id time_slot),
                         officer_notes := Some ''Auto-approved for testing purposes''\<rparr>)
                 (applications d),
              appointments := appointments d @
                 [\<lparr>appt_id = new_id (map appt_id (appointments d)), resident_id = uid,
                   appt_officer_id = officer_id time_slot, appt_application_id = aid,
                   appointment_date = start_time time_slot, duration_minutes = 30,
                   appt_status = ''completed''\<rparr>],
              certificates := certificates d @ [new_certificate now u aid (certificates d)]\<rparr>"
  using run unfolding book_interview_slot_def commit_def first_def Let_def
  by (auto split: option.splits if_splits prod.splits dest: find_holds)

text \<open>
  C4. \<^verbatim>\<open>book_interview_slot\<close> is atomic. Whatever the inputs and whether or not the commit
  goes through, either the route reports something other than success and the store is
  exactly as before (the slot free, the application as it was, no appointment and no
  certificate added), or it reports success and the store holds all the effects together
  and nothing else: the chosen slot, which was free, is booked; every other free slot of
  the same officer that starts before the end of the chosen slot plus 15 minutes and ends
  after its start is booked, and no other slot is changed; the application is approved
  with the officer and the officer notes attached; the appointment (status
  \<^verbatim>\<open>completed\<close>, 30 minutes, at the start of the slot) and the certificate for the
  application are appended; and the other tables are as before.
\<close>

theorem book_atomic:
  assumes "book_interview_slot now u io_ok uid slot_id_f application_id_f d = (r, d')"
  shows "(r \<noteq> BookedAndApproved \<and> d' = d) \<or>
         (r = BookedAndApproved \<and>
          (\<exists>sid aid time_slot pre post application before after.
             slot_id_f = Some sid \<and> application_id_f = Some aid \<and>
             slots d = pre @ time_slot # post \<and>
             list_all (\<lambda>s. slot_id s \<noteq> sid) pre \<and> slot_id time_slot = sid \<and>
             \<not> is_booked time_slot \<and>
             slots d' =
               map (\<lambda>s. if officer_id s = officer_id time_slot \<and> slot_id s \<noteq> sid \<and>
                           \<not> is_booked s \<and>
                           start_time s < end_time time_slot + timedelta_minutes 15 \<and>
                           end_time s > start_time time_slot
                        then s\<lparr>is_booked := True\<rparr> else s) pre @
               time_slot\<lparr>is_booked := True\<rparr> #
               map (\<lambda>s. if officer_id s = officer_id time_slot \<and> slot_id s \<noteq> sid \<and>
                           \<not> is_booked s \<and>
                           start_time s < end_time time_slot + timedelta_minutes 15 \<and>
                           end_time s > start_time time_slot
                        then s\<lparr>is_booked := True\<rparr> else s) post \<and>
             applications d = before @ application # after \<and>
             list_all (\<lambda>a. app_id a \<noteq> aid) before \<and> app_id application = aid \<and>
             applications d' =
               before @
               application\<lparr>app_status := ''approved'',
                  app_officer_id := Some (officer_id time_slot),
                  officer_notes := Some ''Auto-approved for testing purposes''\<rparr> # after \<and>
             appointments d' = appointments d @
               [\<lparr>appt_id = new_id (map appt_id (appointments d)), resident_id = uid,
                 appt_officer_id = officer_id time_slot, appt_application_id = aid,
                 appointment_date = start_time time_slot, duration_minutes = 30,
                 appt_status = ''completed''\<rparr>] \<and>
             certificates d' = certificates d @ [new_certificate now u aid (certificates d)] \<and>
             users d' = users d \<and> resident_infos d' = resident_infos d \<and>
             police_infos d' = police_infos d \<and> weekly_schedules d' = weekly_schedules d \<and>
             scheduled_breaks d' = scheduled_breaks d))"
proof (cases "r = BookedAndApproved")
  case False
  with book_failure_unchanged [OF assms] show ?thesis by simp
next
  case True
  let ?mark = "\<lambda>ts sid s. if officer_id s = officer_id ts \<and> slot_id s \<noteq> sid \<and>
                           \<not> is_booked s \<and>
                           start_time s < end_time ts + timedelta_minutes 15 \<and>
                           end_time s > start_time ts
                        then s\<lparr>is_booked := True\<rparr> else s"
  from assms True have run: "book_interview_slot now u io_ok uid slot_id_f application_id_f d
      = (BookedAndApproved, d')" by simp
  from book_success_state [OF run] obtain sid aid time_slot application where
    f: "slot_id_f = Some sid" "application_id_f = Some aid"
    and ts: "find (\<lambda>s. slot_id s = sid) (slots d) = Some time_slot" "\<not> is_booked time_slot"
    and ap: "find (\<lambda>a. app_id a = aid) (applications d) = Some application"
    and d': "d' = d\<lparr>slots := update_where
                 (\<lambda>s. officer_id s = officer_id time_slot \<and> slot_id s \<noteq> slot_id time_slot \<and>
                      is_booked s = False \<and>
                      start_time s < end_time time_slot + timedelta_minutes 15 \<and>
                      end_time s > start_time time_slot)
                 (\<lambda>s. s\<lparr>is_booked := True\<rparr>)
                 (update_first (\<lambda>s. slot_id s = sid) (\<lambda>s. s\<lparr>is_booked := True\<rparr>) (slots d)),
              applications := update_first (\<lambda>a. app_id a = aid)
                 (\<lambda>a. a\<lparr>app_status := ''approved'',
                         app_officer_id := Some (officer_id time_slot),
                         officer_notes := Some ''Auto-approved for testing purposes''\<rparr>)
                 (applications d),
              appointments := appointments d @
                 [\<lparr>appt_id = new_id (map appt_id (appointments d)), resident_id = uid,
                   appt_officer_id = officer_id time_slot, appt_application_id = aid,
                   appointment_date = start_time time_slot, duration_minutes = 30,
                   appt_status = ''completed''\<rparr>],
              certificates := certificates d @ [new_certificate now u aid (certificates d)]\<rparr>"
    by blast
  have sid: "slot_id time_slot = sid" using ts(1) by (rule find_holds)
  have aid: "app_id application = aid" using ap by (rule find_holds)
  from update_first_split [OF ts(1), of "\<lambda>s. s\<lparr>is_booked := True\<rparr>"] obtain pre post where
    sp: "slots d = pre @ time_slot # post" "list_all (\<lambda>s. \<not> slot_id s = sid) pre"
      "update_first (\<lambda>s. slot_id s = sid) (\<lambda>s. s\<lparr>is_booked := True\<rparr>) (slots d)
         = pre @ time_slot\<lparr>is_booked := True\<rparr> # post" by blast
  from update_first_split [OF ap, of "\<lambda>a. a\<lparr>app_status := ''approved'',
                         app_officer_id := Some (officer_id time_slot),
                         officer_notes := Some ''Auto-approved for testing purposes''\<rparr>"]
  obtain before after where
    as: "applications d = before @ application # after" "list_all (\<lambda>a. \<not> app_id a = aid) before"
      "update_first (\<lambda>a. app_id a = aid) (\<lambda>a. a\<lparr>app_status := ''approved'',
                         app_officer_id := Some (officer_id time_slot),
                         officer_notes := Some ''Auto-approved for testing purposes''\<rparr>) (applications d)
         = before @ application\<lparr>app_status := ''approved'',
                  app_officer_id := Some (officer_id time_slot),
                  officer_notes := Some ''Auto-approved for testing purposes''\<rparr> # after" by blast
  have rows: "slots d' = map (?mark time_slot sid) pre @ time_slot\<lparr>is_booked := True\<rparr> #
      map (?mark time_slot sid) post"
    unfolding d' by (simp add: sp(3) update_where_def sid)
  have apps: "applications d' = before @ application\<lparr>app_status := ''approved'',
                  app_officer_id := Some (officer_id time_slot),
                  officer_notes := Some ''Auto-approved for testing purposes''\<rparr> # after"
    unfolding d' by (simp add: as(3))
  have rest: "appointments d' = appointments d @
               [\<lparr>appt_id = new_id (map appt_id (appointments d)), resident_id = uid,
                 appt_officer_id = officer_id time_slot, appt_application_id = aid,
                 appointment_date = start_time time_slot, duration_minutes = 30,
                 appt_status = ''completed''\<rparr>]"
    "certificates d' = certificates d @ [new_certificate now u aid (certificates d)]"
    "users d' = users d" "resident_infos d' = resident_infos d"
    "police_infos d' = police_infos d" "weekly_schedules d' = weekly_schedules d"
    "scheduled_breaks d' = scheduled_breaks d"
    unfolding d' by simp_all
  from True f sp(1,2) sid ts(2) rows as(1,2) aid apps rest show ?thesis
    by (intro disjI2 conjI exI [of _ sid] exI [of _ aid] exI [of _ time_slot] exI [of _ pre]
        exI [of _ post] exI [of _ application] exI [of _ before] exI [of _ after])
qed

text \<open>
  The booking of the 09:00 slot on \<open>adjacent_slots\<close>: with a commit that goes through, all
  effects are there, the 09:30 slot inside the buffer booked along; with a commit that
  fails, the store is unchanged.
\<close>

theorem book_atomic_witness:
  "fst (book_interview_slot monday_afternoon 0 True 1 (Some 1) (Some 1) adjacent_slots)
     = BookedAndApproved \<and>
   map is_booked (slots (snd (book_interview_slot monday_afternoon 0 True 1 (Some 1) (Some 1)
     adjacent_slots))) = [True, True] \<and>
   map app_status (applications (snd (book_interview_slot monday_afternoon 0 True 1 (Some 1) (Some 1)
     adjacent_slots))) = [''approved''] \<and>
   length (appointments (snd (book_interview_slot monday_afternoon 0 True 1 (Some 1) (Some 1) adjacent_slots))) = 1 \<and>
   length (certificates (snd (book_interview_slot monday_afternoon 0 True 1 (Some 1) (Some 1) adjacent_slots))) = 1 \<and>
   fst (book_interview_slot monday_afternoon 0 False 1 (Some 1) (Some 1) adjacent_slots)
     = ErrorOccurred \<and>
   snd (book_interview_slot monday_afternoon 0 False 1 (Some 1) (Some 1) adjacent_slots)
     = adjacent_slots"
proof -
  let ?ok = "book_interview_slot monday_afternoon 0 True 1 (Some 1) (Some 1) adjacent_slots"
  let ?failed = "book_interview_slot monday_afternoon 0 False 1 (Some 1) (Some 1) adjacent_slots"
  have ok: "fst ?ok = BookedAndApproved" by code_simp
  have failed: "fst ?failed = ErrorOccurred" by code_simp
  have flags: "map is_booked (slots (snd ?ok)) = [True, True]" by code_simp
  have status: "map app_status (applications (snd ?ok)) = [''approved'']" by code_simp
  have none: "appointments adjacent_slots = []" "certificates adjacent_slots = []"
    by (simp_all add: adjacent_slots_def empty_db_def)
  have "?ok = (fst ?ok, snd ?ok)" by simp
  from book_atomic [OF this] ok none
  have added: "length (appointments (snd ?ok)) = 1 \<and> length (certificates (snd ?ok)) = 1"
    by auto
  have "?failed = (fst ?failed, snd ?failed)" by simp
  from book_atomic [OF this] failed
  have "snd ?failed = adjacent_slots" by auto
  with ok failed flags status added show ?thesis by (intro conjI) simp_all
qed

subsection \<open>A slot that is already booked\<close>

text \<open>
  C6. When the slot named in the form is already booked, \<^verbatim>\<open>book_interview_slot\<close> does not
  succeed and the store is unchanged, whoever asks and for whichever application: the
  application keeps its status, no appointment and no certificate is created, and the slot
  is untouched.
\<close>

theorem booked_slot_rejected:
  assumes "first (\<lambda>s. slot_id s = sid) (slots d) = Some time_slot"
    and "is_booked time_slot"
  shows "snd (book_interview_slot now u io_ok uid (Some sid) application_id_f d) = d \<and>
         fst (book_interview_slot now u io_ok uid (Some sid) application_id_f d) \<noteq> BookedAndApproved"
  using assms unfolding book_interview_slot_def
  by (auto split: option.splits)

theorem booked_slot_rejected_witness:
  "first (\<lambda>s. slot_id s = 1) (slots booked_tomorrow) = Some (slot_9_00\<lparr>is_booked := True\<rparr>) \<and>
   is_booked (slot_9_00\<lparr>is_booked := True\<rparr>) \<and>
   snd (book_interview_slot monday_afternoon 0 True 1 (Some 1) (Some 1) booked_tomorrow)
     = booked_tomorrow \<and>
   fst (book_interview_slot monday_afternoon 0 True 1 (Some 1) (Some 1) booked_tomorrow)
     \<noteq> BookedAndApproved"
proof -
  have found: "first (\<lambda>s. slot_id s = 1) (slots booked_tomorrow) = Some (slot_9_00\<lparr>is_booked := True\<rparr>)"
    by (simp add: first_def booked_tomorrow_def slot_9_00_def)
  have booked: "is_booked (slot_9_00\<lparr>is_booked := True\<rparr>)" by simp
  from booked_slot_rejected [OF found booked, of monday_afternoon 0 True 1 "Some 1"] found booked
  show ?thesis by simp
qed

subsection \<open>The certificate of a booking\<close>

lemma upper_hexdigits:
  "list_all (\<lambda>n. upper_char (hexdigit n) \<in> set ''0123456789ABCDEF'') [0..<16]"
  by code_simp

lemma upper_hexdigit: "n < 16 \<Longrightarrow> upper_char (hexdigit n) \<in> set ''0123456789ABCDEF''"
  using upper_hexdigits unfolding list_all_iff by simp

lemma nibble_less: "unat ((w :: 128 word) AND 15) < 16"
proof -
  have "w AND 15 \<le> 15" by (rule word_and_le1)
  then have "unat (w AND 15) \<le> unat (15 :: 128 word)" by (simp add: word_le_nat_alt)
  then show ?thesis by simp
qed

lemma certificate_number_format:
  "\<exists>cs. certificate_number (new_certificate now u aid rows) = ''AM-'' @ cs \<and> length cs = 8 \<and>
        list_all (\<lambda>c. c \<in> set ''0123456789ABCDEF'') cs"
proof -
  let ?cs = "upper (take 8 (uuid_hex u))"
  have "length ?cs = 8" by (simp add: upper_def uuid_hex_def)
  moreover have "list_all (\<lambda>c. c \<in> set ''0123456789ABCDEF'') ?cs"
    unfolding upper_def uuid_hex_def list_all_iff
    using upper_hexdigit [OF nibble_less] by (auto simp: take_map dest!: in_set_takeD)
  ultimately show ?thesis by (auto simp: new_certificate_def Let_def)
qed

lemma expiry_one_year:
  "expiry_date (new_certificate now u aid rows) =
     issue_date (new_certificate now u aid rows) + timedelta_days 365"
  "date_of (expiry_date (new_certificate now u aid rows)) =
     date_of (issue_date (new_certificate now u aid rows)) + 365"
  "time_of (expiry_date (new_certificate now u aid rows)) =
     time_of (issue_date (new_certificate now u aid rows))"
proof -
  have nz: "usec_per_day \<noteq> 0" by (simp add: usec_per_day_def)
  show "expiry_date (new_certificate now u aid rows) =
      issue_date (new_certificate now u aid rows) + timedelta_days 365"
    by (simp add: new_certificate_def Let_def)
  show "date_of (expiry_date (new_certificate now u aid rows)) =
      date_of (issue_date (new_certificate now u aid rows)) + 365"
    using nz by (simp add: new_certificate_def Let_def timedelta_days_def date_of_def)
  show "time_of (expiry_date (new_certificate now u aid rows)) =
      time_of (issue_date (new_certificate now u aid rows))"
    by (simp add: new_certificate_def Let_def timedelta_days_def time_of_def)
qed

text \<open>
  C9. A successful \<^verbatim>\<open>book_interview_slot\<close> adds exactly one certificate. Its number is
  \<^verbatim>\<open>AM-\<close> followed by exactly 8 characters, each an upper-case hexadecimal digit, and its
  expiry date is its issue date plus exactly 365 days: the same time of day, 365 days later.
\<close>

theorem certificate_format:
  assumes "book_interview_slot now u io_ok uid slot_id_f application_id_f d = (BookedAndApproved, d')"
  shows "\<exists>c cs. certificates d' = certificates d @ [c] \<and>
           certificate_number c = ''AM-'' @ cs \<and> length cs = 8 \<and>
           list_all (\<lambda>x. x \<in> set ''0123456789ABCDEF'') cs \<and>
           expiry_date c = issue_date c + timedelta_days 365 \<and>
           date_of (expiry_date c) = date_of (issue_date c) + 365 \<and>
           time_of (expiry_date c) = time_of (issue_date c)"
proof -
  from book_success_certificates [OF assms] obtain aid where
    c: "certificates d' = certificates d @ [new_certificate now u aid (certificates d)]" ..
  from certificate_number_format [of now u aid "certificates d"] obtain cs where
    "certificate_number (new_certificate now u aid (certificates d)) = ''AM-'' @ cs"
    "length cs = 8" "list_all (\<lambda>x. x \<in> set ''0123456789ABCDEF'') cs" by blast
  with c expiry_one_year [of now u aid "certificates d"] show ?thesis by blast
qed

text \<open>The booking on \<open>adjacent_slots\<close> with the UUID \<^verbatim>\<open>3f2a9c41-0000-4000-8000-00000000beef\<close>.\<close>

theorem certificate_format_witness:
  "book_interview_slot monday_afternoon 0x3f2a9c4100004000800000000000beef True 1 (Some 1) (Some 1)
      adjacent_slots =
     (BookedAndApproved,
      snd (book_interview_slot monday_afternoon 0x3f2a9c4100004000800000000000beef True 1 (Some 1)
        (Some 1) adjacent_slots)) \<and>
   map certificate_number (certificates (snd (book_interview_slot monday_afternoon
      0x3f2a9c4100004000800000000000beef True 1 (Some 1) (Some 1) adjacent_slots)))
     = [''AM-3F2A9C41''] \<and>
   map expiry_date (certificates (snd (book_interview_slot monday_afternoon
      0x3f2a9c4100004000800000000000beef True 1 (Some 1) (Some 1) adjacent_slots)))
     = [combine (739922 + 365) (hm 14 0)]"
proof -
  let ?run = "book_interview_slot monday_afternoon 0x3f2a9c4100004000800000000000beef True 1
     (Some 1) (Some 1) adjacent_slots"
  have ok: "fst ?run = BookedAndApproved" by code_simp
  then have run: "?run = (BookedAndApproved, snd ?run)" by (metis prod.collapse)
  have number: "map certificate_number (certificates (snd ?run)) = [''AM-3F2A9C41'']"
    by code_simp
  have issued: "map issue_date (certificates (snd ?run)) = [combine 739922 (hm 14 0)]"
    by code_simp
  from certificate_format [OF run] obtain c where
    "certificates (snd ?run) = certificates adjacent_slots @ [c]"
    "expiry_date c = issue_date c + timedelta_days 365" by blast
  with issued have "map expiry_date (certificates (snd ?run)) = [combine (739922 + 365) (hm 14 0)]"
    by (simp add: adjacent_slots_def empty_db_def combine_def timedelta_days_def algebra_simps)
  with run number show ?thesis by simp
qed

section \<open>Cancelling\<close>

lemma cancel_needs_scheduled:
  assumes "first (\<lambda>a. appt_id a = k) (appointments d) = Some a" and "appt_status a \<noteq> ''scheduled''"
  shows "snd (cancel_interview io_ok uid (Some k) d) = d"
    and "fst (cancel_interview io_ok uid (Some k) d) \<noteq> InterviewCancelled"
  using assms unfolding cancel_interview_def
  by (auto split: option.splits)

text \<open>
  C10. The appointment that a successful \<^verbatim>\<open>book_interview_slot\<close> creates has status
  \<^verbatim>\<open>completed\<close>. \<^verbatim>\<open>cancel_interview\<close> requires \<^verbatim>\<open>scheduled\<close>, so cancelling that appointment
  never succeeds, whoever asks and whether or not the store is available, and it leaves the
  whole store (the appointment, the application and all slots) unchanged.
\<close>

theorem booked_appointment_not_cancellable:
  assumes "book_interview_slot now u io_ok uid slot_id_f application_id_f d = (BookedAndApproved, d')"
  shows "\<exists>a. appointments d' = appointments d @ [a] \<and> appt_status a = ''completed'' \<and>
           (\<forall>io_ok' uid'.
              snd (cancel_interview io_ok' uid' (Some (appt_id a)) d') = d' \<and>
              fst (cancel_interview io_ok' uid' (Some (appt_id a)) d') \<noteq> InterviewCancelled)"
proof -
  from book_success_appointment [OF assms] obtain a where
    a: "appointments d' = appointments d @ [a]" "appt_status a = ''completed''"
       "appt_id a = new_id (map appt_id (appointments d))" by blast
  have "\<And>x. x \<in> set (appointments d) \<Longrightarrow> appt_id x \<noteq> appt_id a"
    using new_id_fresh [of _ "map appt_id (appointments d)"] a(3) by force
  then have "first (\<lambda>x. appt_id x = appt_id a) (appointments d') = Some a"
    unfolding first_def a(1) by (intro find_append_fresh) auto
  from cancel_needs_scheduled [OF this] a show ?thesis by simp
qed

text \<open>The resident books the 09:00 slot on \<open>adjacent_slots\<close> and then asks to cancel.\<close>

theorem booked_appointment_not_cancellable_witness:
  "book_interview_slot monday_afternoon 0 True 1 (Some 1) (Some 1) adjacent_slots =
     (BookedAndApproved,
      snd (book_interview_slot monday_afternoon 0 True 1 (Some 1) (Some 1) adjacent_slots)) \<and>
   map appt_id (appointments (snd (book_interview_slot monday_afternoon 0 True 1 (Some 1) (Some 1)
      adjacent_slots))) = [1] \<and>
   map appt_status (appointments (snd (book_interview_slot monday_afternoon 0 True 1 (Some 1) (Some 1)
      adjacent_slots))) = [''completed''] \<and>
   cancel_interview True 1 (Some 1)
     (snd (book_interview_slot monday_afternoon 0 True 1 (Some 1) (Some 1) adjacent_slots)) =
     (CannotBeCancelled,
      snd (book_interview_slot monday_afternoon 0 True 1 (Some 1) (Some 1) adjacent_slots))"
proof -
  let ?run = "book_interview_slot monday_afternoon 0 True 1 (Some 1) (Some 1) adjacent_slots"
  have ok: "fst ?run = BookedAndApproved" by code_simp
  then have run: "?run = (BookedAndApproved, snd ?run)" by (metis prod.collapse)
  have ids: "map appt_id (appointments (snd ?run)) = [1]" by code_simp
  have answer: "fst (cancel_interview True 1 (Some 1) (snd ?run)) = CannotBeCancelled"
    by code_simp
  from booked_appointment_not_cancellable [OF run] obtain a where
    a: "appointments (snd ?run) = appointments adjacent_slots @ [a]" "appt_status a = ''completed''"
       "\<forall>io_ok' uid'. snd (cancel_interview io_ok' uid' (Some (appt_id a)) (snd ?run)) = snd ?run \<and>
          fst (cancel_interview io_ok' uid' (Some (appt_id a)) (snd ?run)) \<noteq> InterviewCancelled"
    by blast
  have none: "appointments adjacent_slots = []"
    by (simp add: adjacent_slots_def empty_db_def)
  from a(1) ids none have "appt_id a = 1" by simp
  with a(3) have "snd (cancel_interview True 1 (Some 1) (snd ?run)) = snd ?run" by metis
  with answer have "cancel_interview True 1 (Some 1) (snd ?run) = (CannotBeCancelled, snd ?run)"
    by (metis prod.collapse)
  moreover from a(1,2) none have "map appt_status (appointments (snd ?run)) = [''completed'']"
    by simp
  ultimately show ?thesis using run ids by simp
qed

text \<open>
  C7. For an appointment of the requesting resident in status \<^verbatim>\<open>scheduled\<close>,
  \<^verbatim>\<open>cancel_interview\<close> (store available) succeeds; the appointment gets status \<^verbatim>\<open>cancelled\<close>;
  the linked application, when it exists, gets status \<^verbatim>\<open>leader_approved\<close>; and the first
  slot of the appointment's officer that starts at the appointment date and is booked is
  set free, every other slot staying exactly as it was (in particular the neighbours that
  a booking's buffer had booked). When no such slot exists, no slot changes.
\<close>

theorem cancel_effects:
  assumes user: "load_user d uid = Some current_user" "userType current_user = ''resident''"
    and appt: "first (\<lambda>a. appt_id a = k) (appointments d) = Some a" "resident_id a = uid"
      "appt_status a = ''scheduled''"
  shows "\<exists>d'. cancel_interview True uid (Some k) d = (InterviewCancelled, d') \<and>
     first (\<lambda>x. appt_id x = k) (appointments d') = Some (a\<lparr>appt_status := ''cancelled''\<rparr>) \<and>
     (case first (\<lambda>x. app_id x = appt_application_id a) (applications d) of
        None \<Rightarrow> applications d' = applications d
      | Some application \<Rightarrow>
          first (\<lambda>x. app_id x = appt_application_id a) (applications d') =
            Some (application\<lparr>app_status := ''leader_approved''\<rparr>)) \<and>
     (case first (\<lambda>s. officer_id s = appt_officer_id a \<and> start_time s = appointment_date a \<and>
                       is_booked s = True) (slots d) of
        None \<Rightarrow> slots d' = slots d
      | Some time_slot \<Rightarrow>
          (\<exists>pre post. slots d = pre @ time_slot # post \<and>
             slots d' = pre @ time_slot\<lparr>is_booked := False\<rparr> # post \<and>
             list_all (\<lambda>s. \<not> (officer_id s = appt_officer_id a \<and>
                          start_time s = appointment_date a \<and> is_booked s = True)) pre))"
proof -
  let ?q = "\<lambda>s. officer_id s = appt_officer_id a \<and> start_time s = appointment_date a \<and> is_booked s = True"
  let ?d' = "d\<lparr>appointments := update_first (\<lambda>x. appt_id x = k)
                 (\<lambda>x. x\<lparr>appt_status := ''cancelled''\<rparr>) (appointments d),
              applications := update_first (\<lambda>x. app_id x = appt_application_id a)
                 (\<lambda>x. x\<lparr>app_status := ''leader_approved''\<rparr>) (applications d),
              slots := update_first ?q (\<lambda>s. s\<lparr>is_booked := False\<rparr>) (slots d)\<rparr>"
  have run: "cancel_interview True uid (Some k) d = (InterviewCancelled, ?d')"
    using user appt by (simp add: cancel_interview_def commit_def)
  have appts: "first (\<lambda>x. appt_id x = k) (appointments ?d') = Some (a\<lparr>appt_status := ''cancelled''\<rparr>)"
    using appt(1) by (simp add: first_def find_update_first)
  have apps: "case first (\<lambda>x. app_id x = appt_application_id a) (applications d) of
        None \<Rightarrow> applications ?d' = applications d
      | Some application \<Rightarrow>
          first (\<lambda>x. app_id x = appt_application_id a) (applications ?d') =
            Some (application\<lparr>app_status := ''leader_approved''\<rparr>)"
    by (simp add: first_def find_update_first update_first_none split: option.split)
  have rows: "case first ?q (slots d) of
        None \<Rightarrow> slots ?d' = slots d
      | Some time_slot \<Rightarrow>
          (\<exists>pre post. slots d = pre @ time_slot # post \<and>
             slots ?d' = pre @ time_slot\<lparr>is_booked := False\<rparr> # post \<and>
             list_all (\<lambda>s. \<not> ?q s) pre)"
  proof (cases "find ?q (slots d)")
    case None
    then show ?thesis by (simp add: first_def update_first_none)
  next
    case (Some time_slot)
    from update_first_split [OF Some, of "\<lambda>s. s\<lparr>is_booked := False\<rparr>"]
    show ?thesis using Some by (simp add: first_def) blast
  qed
  from run appts apps rows show ?thesis by blast
qed

text \<open>
  On \<open>scheduled_db\<close> the resident cancels the interview of 09:00: that slot becomes free,
  the 09:30 slot stays booked.
\<close>

theorem cancel_effects_witness:
  "load_user scheduled_db 1 = Some resident1 \<and> userType resident1 = ''resident'' \<and>
   first (\<lambda>a. appt_id a = 1) (appointments scheduled_db) = Some appointment1 \<and>
   resident_id appointment1 = 1 \<and> appt_status appointment1 = ''scheduled'' \<and>
   fst (cancel_interview True 1 (Some 1) scheduled_db) = InterviewCancelled \<and>
   map appt_status (appointments (snd (cancel_interview True 1 (Some 1) scheduled_db)))
     = [''cancelled''] \<and>
   map app_status (applications (snd (cancel_interview True 1 (Some 1) scheduled_db)))
     = [''leader_approved''] \<and>
   slots (snd (cancel_interview True 1 (Some 1) scheduled_db))
     = [slot_9_00, slot_9_30\<lparr>is_booked := True\<rparr>]"
proof -
  have h1: "load_user scheduled_db 1 = Some resident1"
    by (simp add: load_user_def first_def scheduled_db_def empty_db_def resident1_def)
  have h2: "userType resident1 = ''resident''" by (simp add: resident1_def)
  have h3: "first (\<lambda>a. appt_id a = 1) (appointments scheduled_db) = Some appointment1"
    by (simp add: first_def scheduled_db_def appointment1_def)
  have h4: "resident_id appointment1 = 1" by (simp add: appointment1_def)
  have h5: "appt_status appointment1 = ''scheduled''" by (simp add: appointment1_def)
  from cancel_effects [OF h1 h2 h3 h4 h5] obtain d' where
    run: "cancel_interview True 1 (Some 1) scheduled_db = (InterviewCancelled, d')"
    and appts: "first (\<lambda>x. appt_id x = 1) (appointments d') =
       Some (appointment1\<lparr>appt_status := ''cancelled''\<rparr>)"
    by blast
  have "map appt_status (appointments (snd (cancel_interview True 1 (Some 1) scheduled_db)))
      = [''cancelled'']" by code_simp
  moreover have "map app_status (applications (snd (cancel_interview True 1 (Some 1) scheduled_db)))
      = [''leader_approved'']" by code_simp
  moreover have "slots (snd (cancel_interview True 1 (Some 1) scheduled_db))
      = [slot_9_00, slot_9_30\<lparr>is_booked := True\<rparr>]" by code_simp
  ultimately show ?thesis using h1 h2 h3 h4 h5 run by simp
qed

section \<open>Profile changes\<close>

text \<open>
  C8. When a resident submits the personal-information form with first name, last name,
  phone number and email filled in (the email not taken by another user, the store
  available), the edit is accepted, every application of the resident that was
  \<^verbatim>\<open>pending\<close> has status \<^verbatim>\<open>cancelled\<close> afterwards, and the resident's \<^verbatim>\<open>isVerified\<close> flag
  is false.
\<close>

theorem profile_edit_cancels_pending:
  assumes user: "load_user d uid = Some current_user" "userType current_user = ''resident''"
    and info: "first (\<lambda>r. ri_user_id r = uid) (resident_infos d) = Some resident_info"
    and filled: "first_name \<noteq> []" "last_name \<noteq> []" "phone_number \<noteq> []" "email_s \<noteq> []"
    and uniq: "email_s \<notin> set (map email (filter (\<lambda>usr. user_id usr \<noteq> uid) (users d)))"
  shows "\<exists>d'. resident_profile_settings True uid (Some first_name) (Some last_name)
                 (Some phone_number) (Some email_s) d = (ProfileUpdated, d') \<and>
     length (applications d') = length (applications d) \<and>
     (\<forall>i < length (applications d).
        applicant_id (applications d ! i) = uid \<and> app_status (applications d ! i) = ''pending''
        \<longrightarrow> app_status (applications d' ! i) = ''cancelled'' \<and>
            app_id (applications d' ! i) = app_id (applications d ! i) \<and>
            applicant_id (applications d' ! i) = uid) \<and>
     map_option isVerified (load_user d' uid) = Some False"
proof -
  let ?d' = "d\<lparr>resident_infos := update_first (\<lambda>r. ri_user_id r = uid)
                 (\<lambda>r. r\<lparr>ri_firstName := first_name, ri_lastName := last_name,
                         ri_phoneNumber := phone_number\<rparr>) (resident_infos d),
              users := update_first (\<lambda>usr. user_id usr = uid)
                 (\<lambda>usr. usr\<lparr>email := email_s, fullName := first_name @ '' '' @ last_name,
                             isVerified := False\<rparr>) (users d),
              applications := update_where
                 (\<lambda>a. applicant_id a = uid \<and> app_status a = ''pending'')
                 (\<lambda>a. a\<lparr>app_status := ''cancelled'',
                         leader_notes := Some ''Application cancelled due to profile information change.''\<rparr>)
                 (applications d)\<rparr>"
  have run: "resident_profile_settings True uid (Some first_name) (Some last_name)
                 (Some phone_number) (Some email_s) d = (ProfileUpdated, ?d')"
    using user info filled uniq by (simp add: resident_profile_settings_def commit_def)
  have len: "length (applications ?d') = length (applications d)"
    by (simp add: update_where_def)
  have apps: "\<forall>i < length (applications d).
        applicant_id (applications d ! i) = uid \<and> app_status (applications d ! i) = ''pending''
        \<longrightarrow> app_status (applications ?d' ! i) = ''cancelled'' \<and>
            app_id (applications ?d' ! i) = app_id (applications d ! i) \<and>
            applicant_id (applications ?d' ! i) = uid"
    by (simp add: nth_update_where)
  have ver: "map_option isVerified (load_user ?d' uid) = Some False"
    using user(1) by (simp add: load_user_def first_def find_update_first)
  from run len apps ver show ?thesis by blast
qed

text \<open>On \<open>pending_db\<close> the resident changes the name to Thabo Mokoena.\<close>

theorem profile_edit_cancels_pending_witness:
  "load_user pending_db 1 = Some resident1 \<and> userType resident1 = ''resident'' \<and>
   first (\<lambda>r. ri_user_id r = 1) (resident_infos pending_db) = Some resident1_info \<and>
   ''thabo@example.org'' \<notin> set (map email (filter (\<lambda>usr. user_id usr \<noteq> 1) (users pending_db))) \<and>
   map app_status (applications pending_db) = [''pending''] \<and>
   fst (resident_profile_settings True 1 (Some ''Thabo'') (Some ''Mokoena'') (Some ''0820000000'')
      (Some ''thabo@example.org'') pending_db) = ProfileUpdated \<and>
   map app_status (applications (snd (resident_profile_settings True 1 (Some ''Thabo'')
      (Some ''Mokoena'') (Some ''0820000000'') (Some ''thabo@example.org'') pending_db)))
     = [''cancelled''] \<and>
   map_option isVerified (load_user (snd (resident_profile_settings True 1 (Some ''Thabo'')
      (Some ''Mokoena'') (Some ''0820000000'') (Some ''thabo@example.org'') pending_db)) 1)
     = Some False"
proof -
  let ?run = "resident_profile_settings True 1 (Some ''Thabo'') (Some ''Mokoena'')
     (Some ''0820000000'') (Some ''thabo@example.org'') pending_db"
  have h1: "load_user pending_db 1 = Some resident1"
    by (simp add: load_user_def first_def pending_db_def empty_db_def resident1_def)
  have h2: "userType resident1 = ''resident''" by (simp add: resident1_def)
  have h3: "first (\<lambda>r. ri_user_id r = 1) (resident_infos pending_db) = Some resident1_info"
    by (simp add: first_def pending_db_def empty_db_def resident1_info_def)
  have h4: "''thabo@example.org'' \<notin> set (map email (filter (\<lambda>usr. user_id usr \<noteq> 1) (users pending_db)))"
    by (simp add: pending_db_def empty_db_def resident1_def officer7_def)
  have before: "map app_status (applications pending_db) = [''pending'']"
    by (simp add: pending_db_def empty_db_def application1_def)
  from profile_edit_cancels_pending [OF h1 h2 h3 _ _ _ _ h4, of "''Thabo''" "''Mokoena''" "''0820000000''"]
  obtain d' where run: "?run = (ProfileUpdated, d')"
    and ver: "map_option isVerified (load_user d' 1) = Some False"
    by auto
  have "map app_status (applications (snd ?run)) = [''cancelled'']" by code_simp
  with h1 h2 h3 h4 before run ver show ?thesis by simp
qed

section \<open>Slot generation\<close>

subsection \<open>One step of the walk\<close>

lemma walk_stop:
  "\<not> cur + interview_duration \<le> day_end \<Longrightarrow> walk oid sched info bts day_end cur rows = rows"
  by (simp add: walk.simps)

lemma walk_break:
  "cur + interview_duration \<le> day_end \<Longrightarrow> is_break_time bts cur (cur + interview_duration) \<Longrightarrow>
   walk oid sched info bts day_end cur rows =
     walk oid sched info bts day_end (cur + interview_duration) rows"
  by (subst walk.simps) simp

lemma walk_emit:
  "cur + interview_duration \<le> day_end \<Longrightarrow> \<not> is_break_time bts cur (cur + interview_duration) \<Longrightarrow>
   overlapping_slots oid cur (cur + interview_duration) rows = [] \<Longrightarrow>
   walk oid sched info bts day_end cur rows =
     walk oid sched info bts day_end (cur + interview_duration + gap_duration)
       (rows @ [new_slot oid (Some sched) (Some info) cur (cur + interview_duration) rows])"
  by (subst walk.simps) (simp add: Let_def)

lemma overlapping_slots_empty_iff:
  "overlapping_slots oid s e rows = [] \<longleftrightarrow>
     list_all (\<lambda>r. \<not> (officer_id r = oid \<and> start_time r < e \<and> end_time r > s)) rows"
  by (simp add: overlapping_slots_def filter_empty_conv list_all_iff)

lemma overlapping_slots_narrow:
  assumes "overlapping_slots oid s e rows = []" and "s \<le> s'" and "e' \<le> e"
  shows "overlapping_slots oid s' e' rows = []"
  using assms unfolding overlapping_slots_empty_iff list_all_iff by force

lemma overlapping_slots_snoc:
  "overlapping_slots oid s e (rows @ [r]) = [] \<longleftrightarrow>
     overlapping_slots oid s e rows = [] \<and>
     \<not> (officer_id r = oid \<and> start_time r < e \<and> end_time r > s)"
  by (auto simp: overlapping_slots_def)

text \<open>
  The walk only appends, and every slot it appends starts at or after the position it was
  started from and ends, half an hour later, at or before the end of the day's window.
\<close>

lemma walk_added:
  "\<exists>added. walk oid sched info bts day_end cur rows = rows @ added \<and>
     list_all (\<lambda>s. cur \<le> start_time s \<and> start_time s + interview_duration \<le> day_end) added"
proof (induction oid sched info bts day_end cur rows rule: walk.induct)
  case (1 oid sched info bts day_end cur rows)
  have pos: "0 \<le> interview_duration" "0 \<le> gap_duration"
    by (simp_all add: interview_duration_def gap_duration_def timedelta_minutes_def)
  show ?case
  proof (cases "cur + interview_duration \<le> day_end")
    case False
    then have "walk oid sched info bts day_end cur rows = rows @ []"
      by (simp add: walk.simps)
    then show ?thesis by (intro exI [of _ "[]"]) simp
  next
    case in_range: True
    show ?thesis
    proof (cases "is_break_time bts cur (cur + interview_duration)")
      case True
      from "1.IH"(1) [OF in_range refl True] obtain added where
        a: "walk oid sched info bts day_end (cur + interview_duration) rows = rows @ added"
           "list_all (\<lambda>s. cur + interview_duration \<le> start_time s \<and>
              start_time s + interview_duration \<le> day_end) added" by blast
      have "walk oid sched info bts day_end cur rows = rows @ added"
        using in_range True a(1) by (subst walk.simps) simp
      moreover have "list_all (\<lambda>s. cur \<le> start_time s \<and>
              start_time s + interview_duration \<le> day_end) added"
        using a(2) pos by (auto simp: list_all_iff)
      ultimately show ?thesis by blast
    next
      case False
      let ?rows = "if overlapping_slots oid cur (cur + interview_duration) rows = []
              then rows @ [new_slot oid (Some sched) (Some info) cur (cur + interview_duration) rows]
              else rows"
      from "1.IH"(2) [OF in_range refl False] obtain added where
        a: "walk oid sched info bts day_end (cur + interview_duration + gap_duration) ?rows = ?rows @ added"
           "list_all (\<lambda>s. cur + interview_duration + gap_duration \<le> start_time s \<and>
              start_time s + interview_duration \<le> day_end) added" by blast
      have later: "list_all (\<lambda>s. cur \<le> start_time s \<and>
              start_time s + interview_duration \<le> day_end) added"
        using a(2) pos by (auto simp: list_all_iff)
      have w: "walk oid sched info bts day_end cur rows = ?rows @ added"
        using in_range False a(1) by (subst walk.simps) (simp add: Let_def)
      show ?thesis
      proof (cases "overlapping_slots oid cur (cur + interview_duration) rows = []")
        case True
        with w have "walk oid sched info bts day_end cur rows =
            rows @ (new_slot oid (Some sched) (Some info) cur (cur + interview_duration) rows # added)"
          by simp
        moreover have "list_all (\<lambda>s. cur \<le> start_time s \<and>
              start_time s + interview_duration \<le> day_end)
            (new_slot oid (Some sched) (Some info) cur (cur + interview_duration) rows # added)"
          using later in_range by (simp add: new_slot_def)
        ultimately show ?thesis by blast
      next
        case False
        with w later show ?thesis by auto
      qed
    qed
  qed
qed

text \<open>The slots of one occurrence lie on its date.\<close>

lemma generate_week_added:
  assumes range: "0 \<le> st" "en \<le> usec_per_day"
  shows "\<exists>added. generate_week oid sched info bts next_date st en clock week rows = rows @ added \<and>
     list_all (\<lambda>s. date_of (start_time s) = next_date + int week * 7) added"
proof (cases "combine (next_date + int week * 7) st < clock week")
  case True
  then have "generate_week oid sched info bts next_date st en clock week rows = rows @ []"
    by (simp add: generate_week_def Let_def)
  then show ?thesis by (intro exI [of _ "[]"]) simp
next
  case False
  let ?sd = "next_date + int week * 7"
  from walk_added [of oid sched info bts "combine ?sd en" "combine ?sd st" rows] obtain added where
    a: "walk oid sched info bts (combine ?sd en) (combine ?sd st) rows = rows @ added"
       "list_all (\<lambda>s. combine ?sd st \<le> start_time s \<and>
           start_time s + interview_duration \<le> combine ?sd en) added" by blast
  have "date_of (start_time s) = ?sd" if "s \<in> set added" for s
  proof (rule date_of_between)
    from a(2) that have b: "combine ?sd st \<le> start_time s"
      "start_time s + interview_duration \<le> combine ?sd en" by (auto simp: list_all_iff)
    show "combine ?sd 0 \<le> start_time s"
      using b(1) range(1) by (simp add: combine_def)
    have "start_time s < combine ?sd en"
      using b(2) by (simp add: interview_duration_def timedelta_minutes_def)
    also have "\<dots> \<le> combine (?sd + 1) 0"
      using range(2) by (simp add: combine_def algebra_simps)
    finally show "start_time s < combine (?sd + 1) 0" .
  qed
  then have "list_all (\<lambda>s. date_of (start_time s) = ?sd) added"
    by (simp add: list_all_iff)
  moreover have "generate_week oid sched info bts next_date st en clock week rows = rows @ added"
    using False a(1) by (simp add: generate_week_def Let_def)
  ultimately show ?thesis by blast
qed

lemma generate_week_today:
  "generate_week oid sched info bts next_date st en clock 0 rows =
     (if combine next_date st < clock 0 then rows
      else walk oid sched info bts (combine next_date en) (combine next_date st) rows)"
  by (simp add: generate_week_def Let_def)

lemma days_ahead_today:
  "(dow - weekday (date_of now)) mod 7 = 0 \<Longrightarrow> time_of now < en \<Longrightarrow> days_ahead dow now en = 0"
  by (simp add: days_ahead_def Let_def)

text \<open>Every occurrence falls on the schedule's day of the week.\<close>

lemma days_ahead_mod: "days_ahead dow now en mod 7 = (dow - weekday (date_of now)) mod 7"
proof (cases "(dow - weekday (date_of now)) mod 7 = 0")
  case True
  then show ?thesis by (simp add: days_ahead_def)
next
  case False
  then show ?thesis by (simp add: days_ahead_def)
qed

lemma weekday_arith:
  fixes t x w dow :: int
  assumes "x mod 7 = (dow - (t + 6) mod 7) mod 7" and "0 \<le> dow" and "dow < 7"
  shows "(t + x + w * 7 + 6) mod 7 = dow"
proof -
  have "t + x + w * 7 + 6 = ((t + 6) + x) + w * 7" by simp
  then have "(t + x + w * 7 + 6) mod 7 = (((t + 6) + x) + w * 7) mod 7" by (rule arg_cong)
  also have "\<dots> = ((t + 6) + x) mod 7" by (rule mod_mult_self1)
  also have "\<dots> = ((t + 6) mod 7 + x mod 7) mod 7"
    by (simp add: mod_add_eq)
  also have "\<dots> = ((t + 6) mod 7 + (dow - (t + 6) mod 7) mod 7) mod 7"
    by (simp only: assms(1))
  also have "\<dots> = ((t + 6) mod 7 + (dow - (t + 6) mod 7)) mod 7"
    by (simp add: mod_add_right_eq)
  also have "\<dots> = dow mod 7" by simp
  finally show ?thesis using assms(2,3) by simp
qed

lemma next_occurrence_weekday:
  assumes "0 \<le> dow" and "dow < 7"
  shows "weekday (date_of now + days_ahead dow now en + int week * 7) = dow"
  unfolding weekday_def
  by (rule weekday_arith [OF _ assms]) (simp add: days_ahead_mod weekday_def)

subsection \<open>No two slots of an officer overlap\<close>

text \<open>\<open>no_overlap\<close> says that no two rows at different positions overlap.\<close>

lemma overlaps_sym: "overlaps a b \<longleftrightarrow> overlaps b a"
  by (auto simp: overlaps_def)

lemma no_overlap_pairwise:
  "no_overlap rows \<longleftrightarrow>
     (\<forall>i j. i < j \<and> j < length rows \<longrightarrow> \<not> overlaps (rows ! i) (rows ! j))"
proof (induction rows)
  case Nil
  then show ?case by simp
next
  case (Cons s rows)
  have head: "list_all (\<lambda>t. \<not> overlaps s t) rows \<longleftrightarrow>
      (\<forall>j. 0 < j \<and> j < length (s # rows) \<longrightarrow> \<not> overlaps ((s # rows) ! 0) ((s # rows) ! j))"
  proof
    assume a: "list_all (\<lambda>t. \<not> overlaps s t) rows"
    show "\<forall>j. 0 < j \<and> j < length (s # rows) \<longrightarrow> \<not> overlaps ((s # rows) ! 0) ((s # rows) ! j)"
    proof (intro allI impI)
      fix j assume "0 < j \<and> j < length (s # rows)"
      then obtain k where "j = Suc k" "k < length rows" by (cases j) auto
      with a show "\<not> overlaps ((s # rows) ! 0) ((s # rows) ! j)"
        by (simp add: list_all_length)
    qed
  next
    assume a: "\<forall>j. 0 < j \<and> j < length (s # rows) \<longrightarrow> \<not> overlaps ((s # rows) ! 0) ((s # rows) ! j)"
    show "list_all (\<lambda>t. \<not> overlaps s t) rows"
      unfolding list_all_length
    proof (intro allI impI)
      fix k assume "k < length rows"
      with a [rule_format, of "Suc k"] show "\<not> overlaps s (rows ! k)" by simp
    qed
  qed
  have tail: "(\<forall>i j. i < j \<and> j < length rows \<longrightarrow> \<not> overlaps (rows ! i) (rows ! j)) \<longleftrightarrow>
      (\<forall>i j. 0 < i \<and> i < j \<and> j < length (s # rows) \<longrightarrow>
         \<not> overlaps ((s # rows) ! i) ((s # rows) ! j))"
  proof
    assume a: "\<forall>i j. i < j \<and> j < length rows \<longrightarrow> \<not> overlaps (rows ! i) (rows ! j)"
    show "\<forall>i j. 0 < i \<and> i < j \<and> j < length (s # rows) \<longrightarrow>
         \<not> overlaps ((s # rows) ! i) ((s # rows) ! j)"
    proof (intro allI impI)
      fix i j assume b: "0 < i \<and> i < j \<and> j < length (s # rows)"
      then obtain i' j' where "i = Suc i'" "j = Suc j'" by (cases i; cases j) auto
      with a [rule_format, of i' j'] b show "\<not> overlaps ((s # rows) ! i) ((s # rows) ! j)"
        by simp
    qed
  next
    assume a: "\<forall>i j. 0 < i \<and> i < j \<and> j < length (s # rows) \<longrightarrow>
         \<not> overlaps ((s # rows) ! i) ((s # rows) ! j)"
    show "\<forall>i j. i < j \<and> j < length rows \<longrightarrow> \<not> overlaps (rows ! i) (rows ! j)"
    proof (intro allI impI)
      fix i j assume "i < j \<and> j < length rows"
      with a [rule_format, of "Suc i" "Suc j"] show "\<not> overlaps (rows ! i) (rows ! j)" by simp
    qed
  qed
  have split: "(\<forall>i j. i < j \<and> j < length (s # rows) \<longrightarrow>
         \<not> overlaps ((s # rows) ! i) ((s # rows) ! j)) \<longleftrightarrow>
      (\<forall>j. 0 < j \<and> j < length (s # rows) \<longrightarrow> \<not> overlaps ((s # rows) ! 0) ((s # rows) ! j)) \<and>
      (\<forall>i j. 0 < i \<and> i < j \<and> j < length (s # rows) \<longrightarrow>
         \<not> overlaps ((s # rows) ! i) ((s # rows) ! j))"
    by (metis gr0I)
  show ?case
    unfolding split head [symmetric] tail [symmetric] using Cons.IH by simp
qed

lemma no_overlap_snoc:
  "no_overlap (rows @ [s]) \<longleftrightarrow> no_overlap rows \<and> list_all (\<lambda>t. \<not> overlaps t s) rows"
  by (induction rows) auto

lemma no_overlap_new_slot:
  assumes "no_overlap rows" and "overlapping_slots oid s e rows = []"
  shows "no_overlap (rows @ [new_slot oid sched info s e rows])"
  using assms unfolding no_overlap_snoc overlapping_slots_empty_iff
  by (auto simp: list_all_iff overlaps_def new_slot_def)

lemma walk_no_overlap:
  "no_overlap rows \<Longrightarrow> no_overlap (walk oid sched info break_times day_end cur rows)"
proof (induction oid sched info break_times day_end cur rows rule: walk.induct)
  case (1 oid sched info break_times day_end cur rows)
  show ?case
  proof (cases "cur + interview_duration \<le> day_end")
    case False
    with "1.prems" show ?thesis by (simp add: walk.simps)
  next
    case in_range: True
    show ?thesis
    proof (cases "is_break_time break_times cur (cur + interview_duration)")
      case True
      with in_range "1.IH"(1) "1.prems" show ?thesis
        by (subst walk.simps) simp
    next
      case False
      have "no_overlap (if overlapping_slots oid cur (cur + interview_duration) rows = []
              then rows @ [new_slot oid (Some sched) (Some info) cur (cur + interview_duration) rows]
              else rows)"
        using "1.prems" by (simp add: no_overlap_new_slot)
      with in_range False "1.IH"(2) show ?thesis
        by (subst walk.simps) (simp add: Let_def)
    qed
  qed
qed

lemma generate_slots_no_overlap:
  "no_overlap rows \<Longrightarrow>
   no_overlap (generate_slots oid sched info bts dow st en now clock rows)"
  unfolding generate_slots_def Let_def
  by (rule fold_preserves) (simp_all add: generate_week_def Let_def walk_no_overlap)

text \<open>
  The two routes of the officer keep the invariant, whatever their input: the weekly
  schedule and the ad-hoc slot each query for overlapping slots before they add one.
\<close>

lemma weekly_availability_no_overlap:
  assumes "no_overlap (slots d)"
  shows "no_overlap (slots (snd (police_add_weekly_availability now clock io_ok uid dow_f start_f end_f
            break_starts break_ends d)))"
  using assms generate_slots_no_overlap
  unfolding police_add_weekly_availability_def commit_def Let_def
  by (auto split: option.splits field.splits)

lemma add_availability_no_overlap:
  assumes "no_overlap (slots d)"
  shows "no_overlap (slots (snd (police_add_availability now io_ok uid form d)))"
  using assms no_overlap_new_slot
  unfolding police_add_availability_def commit_def
  by (auto split: option.splits field.splits)

text \<open>
  C3. No two slots of one officer should ever overlap, whichever route creates slots. On
  the store \<open>booked_tomorrow\<close> (the officer's only slot, Tuesday 09:00-09:30, is booked, so
  no free slot exists) the invariant holds. The resident opens \<^verbatim>\<open>schedule_interview\<close> on
  Monday afternoon; the route adds its demo slots for the officer without an overlap query,
  the first of them Tuesday 09:00-09:30 again, and the invariant is broken.
\<close>

theorem demo_slots_overlap:
  "no_overlap (slots booked_tomorrow) \<and>
   fst (schedule_interview monday_afternoon True True 1 1 Get booked_tomorrow) = Page \<and>
   map interval (take 2 (slots (snd (schedule_interview monday_afternoon True True 1 1 Get
      booked_tomorrow))))
     = [(combine 739923 (hm 9 0), combine 739923 (hm 9 30)),
        (combine 739923 (hm 9 0), combine 739923 (hm 9 30))] \<and>
   map officer_id (take 2 (slots (snd (schedule_interview monday_afternoon True True 1 1 Get
      booked_tomorrow)))) = [7, 7] \<and>
   \<not> no_overlap (slots (snd (schedule_interview monday_afternoon True True 1 1 Get booked_tomorrow)))"
  by code_simp

subsection \<open>Monday 09:00 to 12:00 with a break from 10:00 to 10:15\<close>

text \<open>
  C1 as stated expects a slot 09:45-10:00 on each generated Monday. On the store
  \<open>empty_db\<close> the officer submits the schedule on Sunday morning: twelve slots are created,
  the first three are Monday's 09:00-09:30, 10:15-10:45 and 11:00-11:30, and no slot
  09:45-10:00 is among them.
\<close>

theorem weekly_monday_counterexample:
  "fst (police_add_weekly_availability sunday_morning (steady_clock sunday_morning) True 7
      (Parsed 0) (Parsed (hm 9 0)) (Parsed (hm 12 0)) [Parsed (hm 10 0)] [Parsed (hm 10 15)] empty_db)
     = WeeklyScheduleAdded 12 \<and>
   map interval (take 3 (slots (snd (police_add_weekly_availability sunday_morning
      (steady_clock sunday_morning) True 7 (Parsed 0) (Parsed (hm 9 0)) (Parsed (hm 12 0))
      [Parsed (hm 10 0)] [Parsed (hm 10 15)] empty_db))))
     = [(combine 739922 (hm 9 0), combine 739922 (hm 9 30)),
        (combine 739922 (hm 10 15), combine 739922 (hm 10 45)),
        (combine 739922 (hm 11 0), combine 739922 (hm 11 30))] \<and>
   (combine 739922 (hm 9 45), combine 739922 (hm 10 0)) \<notin>
     set (map interval (slots (snd (police_add_weekly_availability sunday_morning
      (steady_clock sunday_morning) True 7 (Parsed 0) (Parsed (hm 9 0)) (Parsed (hm 12 0))
      [Parsed (hm 10 0)] [Parsed (hm 10 15)] empty_db))))"
  by code_simp

lemma monday_walk:
  assumes free: "overlapping_slots oid (combine sd (hm 9 0)) (combine sd (hm 12 0)) rows = []"
  shows "\<exists>added.
      walk oid sched info [(hm 10 0, hm 10 15)] (combine sd (hm 12 0)) (combine sd (hm 9 0)) rows
        = rows @ added \<and>
      map interval added =
        [(combine sd (hm 9 0), combine sd (hm 9 30)),
         (combine sd (hm 10 15), combine sd (hm 10 45)),
         (combine sd (hm 11 0), combine sd (hm 11 30))] \<and>
      list_all (\<lambda>s. officer_id s = oid \<and> \<not> is_booked s) added"
proof -
  define bts where "bts = [(hm 10 0, hm 10 15)]"
  define de where "de = combine sd (hm 12 0)"
  define a where "a = new_slot oid (Some sched) (Some info)
    (combine sd (hm 9 0)) (combine sd (hm 9 30)) rows"
  define b where "b = new_slot oid (Some sched) (Some info)
    (combine sd (hm 10 15)) (combine sd (hm 10 45)) (rows @ [a])"
  define c where "c = new_slot oid (Some sched) (Some info)
    (combine sd (hm 11 0)) (combine sd (hm 11 30)) (rows @ [a, b])"
  have f1: "overlapping_slots oid (combine sd (hm 9 0)) (combine sd (hm 9 0) + interview_duration) rows = []"
    by (rule overlapping_slots_narrow [OF free]) (simp_all add: clock_defs)
  have f2: "overlapping_slots oid (combine sd (hm 10 15)) (combine sd (hm 10 15) + interview_duration) rows = []"
    by (rule overlapping_slots_narrow [OF free]) (simp_all add: clock_defs)
  have f3: "overlapping_slots oid (combine sd (hm 11 0)) (combine sd (hm 11 0) + interview_duration) rows = []"
    by (rule overlapping_slots_narrow [OF free]) (simp_all add: clock_defs)
  have t: "combine sd (hm 9 0) + interview_duration = combine sd (hm 9 30)"
    "combine sd (hm 9 30) + gap_duration = combine sd (hm 9 45)"
    "combine sd (hm 9 45) + interview_duration = combine sd (hm 10 15)"
    "combine sd (hm 10 15) + interview_duration = combine sd (hm 10 45)"
    "combine sd (hm 10 45) + gap_duration = combine sd (hm 11 0)"
    "combine sd (hm 11 0) + interview_duration = combine sd (hm 11 30)"
    "combine sd (hm 11 30) + gap_duration = combine sd (hm 11 45)"
    by (simp_all add: clock_defs)
  have s1: "walk oid sched info bts de (combine sd (hm 9 0)) rows
          = walk oid sched info bts de (combine sd (hm 9 45)) (rows @ [a])"
  proof -
    have "walk oid sched info bts de (combine sd (hm 9 0)) rows
        = walk oid sched info bts de (combine sd (hm 9 0) + interview_duration + gap_duration)
            (rows @ [new_slot oid (Some sched) (Some info) (combine sd (hm 9 0))
               (combine sd (hm 9 0) + interview_duration) rows])"
      by (rule walk_emit [OF _ _ f1]) (simp_all add: de_def bts_def is_break_time_def clock_defs)
    then show ?thesis by (simp only: t a_def)
  qed
  have s2: "walk oid sched info bts de (combine sd (hm 9 45)) (rows @ [a])
          = walk oid sched info bts de (combine sd (hm 10 15)) (rows @ [a])"
  proof -
    have "walk oid sched info bts de (combine sd (hm 9 45)) (rows @ [a])
        = walk oid sched info bts de (combine sd (hm 9 45) + interview_duration) (rows @ [a])"
      by (rule walk_break) (simp_all add: de_def bts_def is_break_time_def clock_defs)
    then show ?thesis by (simp only: t)
  qed
  have s3: "walk oid sched info bts de (combine sd (hm 10 15)) (rows @ [a])
          = walk oid sched info bts de (combine sd (hm 11 0)) (rows @ [a, b])"
  proof -
    have o: "overlapping_slots oid (combine sd (hm 10 15))
        (combine sd (hm 10 15) + interview_duration) (rows @ [a]) = []"
      unfolding overlapping_slots_snoc using f2 by (simp add: a_def new_slot_def clock_defs)
    have "walk oid sched info bts de (combine sd (hm 10 15)) (rows @ [a])
        = walk oid sched info bts de (combine sd (hm 10 15) + interview_duration + gap_duration)
            ((rows @ [a]) @ [new_slot oid (Some sched) (Some info) (combine sd (hm 10 15))
               (combine sd (hm 10 15) + interview_duration) (rows @ [a])])"
      by (rule walk_emit [OF _ _ o]) (simp_all add: de_def bts_def is_break_time_def clock_defs)
    then show ?thesis by (simp only: t b_def append.simps append_assoc)
  qed
  have s4: "walk oid sched info bts de (combine sd (hm 11 0)) (rows @ [a, b])
          = walk oid sched info bts de (combine sd (hm 11 45)) (rows @ [a, b, c])"
  proof -
    have o: "overlapping_slots oid (combine sd (hm 11 0))
        (combine sd (hm 11 0) + interview_duration) ((rows @ [a]) @ [b]) = []"
      unfolding overlapping_slots_snoc using f3 by (simp add: a_def b_def new_slot_def clock_defs)
    have "walk oid sched info bts de (combine sd (hm 11 0)) ((rows @ [a]) @ [b])
        = walk oid sched info bts de (combine sd (hm 11 0) + interview_duration + gap_duration)
            (((rows @ [a]) @ [b]) @ [new_slot oid (Some sched) (Some info) (combine sd (hm 11 0))
               (combine sd (hm 11 0) + interview_duration) ((rows @ [a]) @ [b])])"
      by (rule walk_emit [OF _ _ o]) (simp_all add: de_def bts_def is_break_time_def clock_defs)
    then show ?thesis by (simp only: t c_def append.simps append_assoc)
  qed
  have s5: "walk oid sched info bts de (combine sd (hm 11 45)) (rows @ [a, b, c]) = rows @ [a, b, c]"
    by (rule walk_stop) (simp add: de_def clock_defs)
  have r1: "walk oid sched info bts de (combine sd (hm 9 0)) rows = rows @ [a, b, c]"
    by (simp only: s1 s2 s3 s4 s5)
  have r2: "map interval [a, b, c] =
        [(combine sd (hm 9 0), combine sd (hm 9 30)),
         (combine sd (hm 10 15), combine sd (hm 10 45)),
         (combine sd (hm 11 0), combine sd (hm 11 30))]"
    by (simp add: interval_def a_def b_def c_def new_slot_def)
  have r3: "list_all (\<lambda>s. officer_id s = oid \<and> \<not> is_booked s) [a, b, c]"
    by (simp add: a_def b_def c_def new_slot_def)
  from r1 r2 r3 show ?thesis unfolding bts_def de_def
    by (intro exI [of _ "[a, b, c]"] conjI)
qed

text \<open>
  C1, amended. For a weekly schedule on Monday 09:00-12:00 with one break 10:00-10:15,
  every occurrence that generation walks is a Monday, and when its 09:00 has not passed
  and no slot of the officer overlaps 09:00-12:00 of that day, generation adds exactly the
  three half-hour slots 09:00-09:30, 10:15-10:45 and 11:00-11:30 for the officer, all
  free: the candidate 09:45-10:15 overlaps the break and is skipped, the walk resumes at
  its end, and 11:45-12:15 would extend past 12:00.
\<close>

theorem weekly_monday_slots:
  assumes sd: "sd = date_of now + days_ahead 0 now (hm 12 0) + int week * 7"
    and future: "clock week \<le> combine sd (hm 9 0)"
    and free: "overlapping_slots oid (combine sd (hm 9 0)) (combine sd (hm 12 0)) rows = []"
  shows "weekday sd = 0 \<and>
    (\<exists>added.
      generate_week oid sched info [(hm 10 0, hm 10 15)]
          (date_of now + days_ahead 0 now (hm 12 0)) (hm 9 0) (hm 12 0) clock week rows
        = rows @ added \<and>
      map interval added =
        [(combine sd (hm 9 0), combine sd (hm 9 30)),
         (combine sd (hm 10 15), combine sd (hm 10 45)),
         (combine sd (hm 11 0), combine sd (hm 11 30))] \<and>
      list_all (\<lambda>s. officer_id s = oid \<and> \<not> is_booked s) added)"
proof -
  have "weekday sd = 0"
    unfolding sd by (rule next_occurrence_weekday) simp_all
  moreover have "generate_week oid sched info [(hm 10 0, hm 10 15)]
          (date_of now + days_ahead 0 now (hm 12 0)) (hm 9 0) (hm 12 0) clock week rows
      = walk oid sched info [(hm 10 0, hm 10 15)] (combine sd (hm 12 0)) (combine sd (hm 9 0)) rows"
    using future by (simp add: generate_week_def Let_def sd)
  ultimately show ?thesis using monday_walk [OF free, of sched info] by simp
qed

text \<open>The first Monday after Sunday 2026-11-01, for officer 7 without any slot.\<close>

theorem weekly_monday_slots_witness:
  "(739922 :: int) = date_of sunday_morning + days_ahead 0 sunday_morning (hm 12 0) + int 0 * 7 \<and>
   steady_clock sunday_morning 0 \<le> combine 739922 (hm 9 0) \<and>
   overlapping_slots 7 (combine 739922 (hm 9 0)) (combine 739922 (hm 12 0)) [] = [] \<and>
   weekday 739922 = 0 \<and>
   map interval (generate_week 7 1 officer7_info [(hm 10 0, hm 10 15)]
      (date_of sunday_morning + days_ahead 0 sunday_morning (hm 12 0)) (hm 9 0) (hm 12 0)
      (steady_clock sunday_morning) 0 [])
     = [(combine 739922 (hm 9 0), combine 739922 (hm 9 30)),
        (combine 739922 (hm 10 15), combine 739922 (hm 10 45)),
        (combine 739922 (hm 11 0), combine 739922 (hm 11 30))]"
proof -
  have h1: "(739922 :: int) = date_of sunday_morning + days_ahead 0 sunday_morning (hm 12 0) + int 0 * 7"
    by code_simp
  have h2: "steady_clock sunday_morning 0 \<le> combine 739922 (hm 9 0)"
    by code_simp
  have h3: "overlapping_slots 7 (combine 739922 (hm 9 0)) (combine 739922 (hm 12 0)) [] = []"
    by (simp add: overlapping_slots_def)
  note inst = weekly_monday_slots [where sd = 739922 and now = sunday_morning and week = 0
      and clock = "steady_clock sunday_morning" and oid = 7 and rows = "[]" and sched = 1
      and info = officer7_info, OF h1 h2 h3]
  note m = inst [THEN conjunct1]
  from inst [THEN conjunct2] obtain added where
    a: "generate_week 7 1 officer7_info [(hm 10 0, hm 10 15)]
      (date_of sunday_morning + days_ahead 0 sunday_morning (hm 12 0)) (hm 9 0) (hm 12 0)
      (steady_clock sunday_morning) 0 [] = [] @ added \<and>
    map interval added =
        [(combine 739922 (hm 9 0), combine 739922 (hm 9 30)),
         (combine 739922 (hm 10 15), combine 739922 (hm 10 45)),
         (combine 739922 (hm 11 0), combine 739922 (hm 11 30))] \<and>
    list_all (\<lambda>s. officer_id s = 7 \<and> \<not> is_booked s) added" ..
  from a have g: "generate_week 7 1 officer7_info [(hm 10 0, hm 10 15)]
      (date_of sunday_morning + days_ahead 0 sunday_morning (hm 12 0)) (hm 9 0) (hm 12 0)
      (steady_clock sunday_morning) 0 [] = added"
    by (simp only: append_Nil)
  have "map interval (generate_week 7 1 officer7_info [(hm 10 0, hm 10 15)]
      (date_of sunday_morning + days_ahead 0 sunday_morning (hm 12 0)) (hm 9 0) (hm 12 0)
      (steady_clock sunday_morning) 0 [])
     = [(combine 739922 (hm 9 0), combine 739922 (hm 9 30)),
        (combine 739922 (hm 10 15), combine 739922 (hm 10 45)),
        (combine 739922 (hm 11 0), combine 739922 (hm 11 30))]"
    unfolding g using a by (rule conjunct1 [OF conjunct2])
  with h1 h2 h3 m show ?thesis by (intro conjI)
qed

subsection \<open>An occurrence that has already begun\<close>

text \<open>
  C5 as stated expects the slots of today that start later than now. The officer
  submits a Monday 09:00-12:00 schedule on Monday 2026-11-02 at 10:00. The candidate
  10:30-11:00 of today's walk does not start in the past, but it is not created: the
  twelve slots created lie on the three following Mondays.
\<close>

theorem today_counterexample:
  "days_ahead 0 monday_at_ten (hm 12 0) = 0 \<and>
   monday_at_ten \<le> combine 739922 (hm 10 30) \<and>
   (combine 739922 (hm 10 30), combine 739922 (hm 11 0)) \<in>
     set (map interval (walk 7 1 officer7_info [] (combine 739922 (hm 12 0))
       (combine 739922 (hm 9 0)) [])) \<and>
   (combine 739922 (hm 10 30), combine 739922 (hm 11 0)) \<notin>
     set (map interval (slots (snd (police_add_weekly_availability monday_at_ten
       (steady_clock monday_at_ten) True 7 (Parsed 0) (Parsed (hm 9 0)) (Parsed (hm 12 0)) [] []
       empty_db)))) \<and>
   map date_of (map start_time (slots (snd (police_add_weekly_availability monday_at_ten
       (steady_clock monday_at_ten) True 7 (Parsed 0) (Parsed (hm 9 0)) (Parsed (hm 12 0)) [] []
       empty_db))))
     = [739929, 739929, 739929, 739929, 739936, 739936, 739936, 739936,
        739943, 739943, 739943, 739943]"
  by code_simp

text \<open>
  C5, amended. When the schedule's day of the week is today and the time of day is before
  the schedule's end, the first occurrence is today's, and it is taken or left as a whole:
  if today's start time is earlier than the clock when the occurrence is reached, no slot
  dated today is created; otherwise today's slots are exactly those of the full walk of
  today's window. No candidate is dropped on its own for a start in the past.
\<close>

theorem today_occurrence:
  assumes today: "(dow - weekday (date_of now)) mod 7 = 0" and before_end: "time_of now < en"
    and range: "0 \<le> st" "en \<le> usec_per_day"
  shows "\<exists>added. generate_slots oid sched info bts dow st en now clock rows = rows @ added \<and>
     (if combine (date_of now) st < clock 0
      then list_all (\<lambda>s. date_of (start_time s) \<noteq> date_of now) added
      else rows @ filter (\<lambda>s. date_of (start_time s) = date_of now) added =
           walk oid sched info bts (combine (date_of now) en) (combine (date_of now) st) rows)"
proof -
  let ?nd = "date_of now"
  let ?g = "generate_week oid sched info bts ?nd st en clock"
  from generate_week_added [OF range, of oid sched info bts ?nd clock 0 rows] obtain a0 where
    a0: "?g 0 rows = rows @ a0"
      "list_all (\<lambda>s. date_of (start_time s) = ?nd + int 0 * 7) a0" by blast
  from generate_week_added [OF range, of oid sched info bts ?nd clock 1 "rows @ a0"] obtain a1 where
    a1: "?g 1 (rows @ a0) = (rows @ a0) @ a1"
      "list_all (\<lambda>s. date_of (start_time s) = ?nd + int 1 * 7) a1" by blast
  from generate_week_added [OF range, of oid sched info bts ?nd clock 2 "(rows @ a0) @ a1"]
  obtain a2 where
    a2: "?g 2 ((rows @ a0) @ a1) = ((rows @ a0) @ a1) @ a2"
      "list_all (\<lambda>s. date_of (start_time s) = ?nd + int 2 * 7) a2" by blast
  from generate_week_added [OF range, of oid sched info bts ?nd clock 3 "((rows @ a0) @ a1) @ a2"]
  obtain a3 where
    a3: "?g 3 (((rows @ a0) @ a1) @ a2) = (((rows @ a0) @ a1) @ a2) @ a3"
      "list_all (\<lambda>s. date_of (start_time s) = ?nd + int 3 * 7) a3" by blast
  have gen: "generate_slots oid sched info bts dow st en now clock rows = rows @ (a0 @ a1 @ a2 @ a3)"
    using a0(1) a1(1) a2(1) a3(1)
    by (simp add: generate_slots_def Let_def days_ahead_today [OF today before_end] upt_4)
  have later: "list_all (\<lambda>s. date_of (start_time s) \<noteq> ?nd) (a1 @ a2 @ a3)"
    using a1(2) a2(2) a3(2) by (auto simp: list_all_iff)
  then have none: "filter (\<lambda>s. date_of (start_time s) = ?nd) (a1 @ a2 @ a3) = []"
    by (auto simp: list_all_iff filter_empty_conv)
  have all: "filter (\<lambda>s. date_of (start_time s) = ?nd) a0 = a0"
    using a0(2) by (auto simp: list_all_iff)
  show ?thesis
  proof (cases "combine ?nd st < clock 0")
    case True
    then have "a0 = []" using a0(1) by (simp add: generate_week_today)
    with gen later True show ?thesis by (intro exI [of _ "a0 @ a1 @ a2 @ a3"]) simp
  next
    case False
    then have "rows @ a0 = walk oid sched info bts (combine ?nd en) (combine ?nd st) rows"
      using a0(1) by (simp add: generate_week_today)
    moreover have "filter (\<lambda>s. date_of (start_time s) = ?nd) (a0 @ a1 @ a2 @ a3) = a0"
      using none all by simp
    ultimately show ?thesis using gen False
      by (intro exI [of _ "a0 @ a1 @ a2 @ a3"]) simp
  qed
qed

text \<open>Monday 2026-11-02 at 10:00, a Monday schedule from 09:00 to 12:00.\<close>

theorem today_occurrence_witness:
  "(0 - weekday (date_of monday_at_ten)) mod 7 = 0 \<and> time_of monday_at_ten < hm 12 0 \<and>
   0 \<le> hm 9 0 \<and> hm 12 0 \<le> usec_per_day \<and>
   combine (date_of monday_at_ten) (hm 9 0) < steady_clock monday_at_ten 0 \<and>
   list_all (\<lambda>s. date_of (start_time s) \<noteq> date_of monday_at_ten)
     (generate_slots 7 1 officer7_info [] 0 (hm 9 0) (hm 12 0) monday_at_ten
        (steady_clock monday_at_ten) [])"
proof -
  have h1: "(0 - weekday (date_of monday_at_ten)) mod 7 = 0" by code_simp
  have h2: "time_of monday_at_ten < hm 12 0" by code_simp
  have h3: "0 \<le> hm 9 0" by code_simp
  have h4: "hm 12 0 \<le> usec_per_day" by code_simp
  have past: "combine (date_of monday_at_ten) (hm 9 0) < steady_clock monday_at_ten 0"
    by code_simp
  from today_occurrence [OF h1 h2 h3 h4, of 7 1 officer7_info "[]" "steady_clock monday_at_ten" "[]"]
  obtain added where
    a: "generate_slots 7 1 officer7_info [] 0 (hm 9 0) (hm 12 0) monday_at_ten
          (steady_clock monday_at_ten) [] = [] @ added \<and>
      (if combine (date_of monday_at_ten) (hm 9 0) < steady_clock monday_at_ten 0
       then list_all (\<lambda>s. date_of (start_time s) \<noteq> date_of monday_at_ten) added
       else [] @ filter (\<lambda>s. date_of (start_time s) = date_of monday_at_ten) added =
            walk 7 1 officer7_info [] (combine (date_of monday_at_ten) (hm 12 0))
              (combine (date_of monday_at_ten) (hm 9 0)) [])" ..
  from a have g: "generate_slots 7 1 officer7_info [] 0 (hm 9 0) (hm 12 0) monday_at_ten
          (steady_clock monday_at_ten) [] = added"
    by (simp only: append_Nil)
  from a past have "list_all (\<lambda>s. date_of (start_time s) \<noteq> date_of monday_at_ten) added"
    by (simp only: if_True)
  then have "list_all (\<lambda>s. date_of (start_time s) \<noteq> date_of monday_at_ten)
     (generate_slots 7 1 officer7_info [] 0 (hm 9 0) (hm 12 0) monday_at_ten
        (steady_clock monday_at_ten) [])"
    by (simp only: g)
  with h1 h2 h3 h4 past show ?thesis by (intro conjI)
qed

end
